theory Spec2Isabelle
  imports Main "HOL-Library.AList"
begin

section \<open>Strings, buffers and the file system\<close>

text \<open>
  A JavaScript string is a sequence of UTF-16 code units; a code unit is modelled as a
  natural number, so that the non-ASCII text the plugin appends to stylesheets has its exact
  length. \<open>js\<close> turns an ASCII literal into such a string.  A \<open>Buffer\<close> is a list of
  bytes.  The file system is an association list from paths to contents, in directory order;
  text files are kept decoded.
\<close>

type_synonym jsstring = "nat list"
type_synonym buffer = "nat list"
type_synonym filesystem = "(jsstring \<times> buffer) list"

definition js :: "string \<Rightarrow> jsstring" where
  "js s = map of_char s"

definition startsWith :: "jsstring \<Rightarrow> jsstring \<Rightarrow> bool" where
  "startsWith s p = (take (length p) s = p)"

definition endsWith :: "jsstring \<Rightarrow> jsstring \<Rightarrow> bool" where
  "endsWith s p = (length p \<le> length s \<and> drop (length s - length p) s = p)"

definition existsSync :: "filesystem \<Rightarrow> jsstring \<Rightarrow> bool" where
  "existsSync fs p = (map_of fs p \<noteq> None)"

text \<open>\<open>fs.readFileSync\<close> throws on a missing file: \<open>None\<close>.\<close>

definition readFileSync :: "filesystem \<Rightarrow> jsstring \<Rightarrow> buffer option" where
  "readFileSync fs p = map_of fs p"

definition writeFileSync :: "filesystem \<Rightarrow> jsstring \<Rightarrow> buffer \<Rightarrow> filesystem" where
  "writeFileSync fs p b = AList.update p b fs"

section \<open>Configuration\<close>

text \<open>
  \<open>WebpConverterConfig\<close>: every field is optional in the source (\<open>quality?: number\<close>, ...);
  an absent field is \<open>None\<close>.
\<close>

record WebpConverterConfig =
  quality :: "int option"
  lossless :: "bool option"
  onlySmallerFiles :: "bool option"
  minQuality :: "int option"
  processCss :: "bool option"
  processImport :: "bool option"

text \<open>\<open>defaultCofig\<close> of the plugin entry, and the merge \<open>{ ...defaultCofig, ...options }\<close>.\<close>

definition defaultCofig :: WebpConverterConfig where
  "defaultCofig = \<lparr> quality = Some 85, lossless = Some False, onlySmallerFiles = Some True,
     minQuality = Some 70, processCss = Some True, processImport = Some True \<rparr>"

definition spread :: "'a option \<Rightarrow> 'a option \<Rightarrow> 'a option" where
  "spread d u = (case u of None \<Rightarrow> d | Some v \<Rightarrow> Some v)"

definition mergeConfig :: "WebpConverterConfig \<Rightarrow> WebpConverterConfig \<Rightarrow> WebpConverterConfig" where
  "mergeConfig d u = \<lparr> quality = spread (quality d) (quality u),
     lossless = spread (lossless d) (lossless u),
     onlySmallerFiles = spread (onlySmallerFiles d) (onlySmallerFiles u),
     minQuality = spread (minQuality d) (minQuality u),
     processCss = spread (processCss d) (processCss u),
     processImport = spread (processImport d) (processImport u) \<rparr>"

text \<open>
  The values of a user configuration as the host hands them to the schema
  \<open>joi.object({ quality: joi.number().default(85), lossless: joi.boolean().default(false),
  onlySmallerFiles: joi.boolean().default(true), minQuality: joi.number().default(70),
  processCss: joi.boolean().default(true), processImport: joi.boolean().default(true) })\<close>:
  a key is absent (\<open>Undefined\<close>), a number or a boolean.  As everywhere in this development a
  number is an integer.  A value of another kind (a string, which \<open>joi\<close> may convert, \<open>null\<close>,
  an object, a number with a fraction) is not represented.

  No key is required.  \<open>joi.number()\<close> takes a number and refuses a boolean; by default it also
  refuses a number outside the safe range, from \<open>Number.MIN_SAFE_INTEGER\<close> to
  \<open>Number.MAX_SAFE_INTEGER\<close>.  \<open>joi.boolean()\<close> takes a boolean and refuses a number.  The
  schema has no rule that relates two keys.
\<close>

datatype jsvalue = Undefined | Num int | Boolean bool

record userConfig =
  u_quality :: jsvalue
  u_lossless :: jsvalue
  u_onlySmallerFiles :: jsvalue
  u_minQuality :: jsvalue
  u_processCss :: jsvalue
  u_processImport :: jsvalue

definition MAX_SAFE_INTEGER :: int where
  "MAX_SAFE_INTEGER = 9007199254740991"

fun joi_number :: "jsvalue \<Rightarrow> bool" where
  "joi_number Undefined = True"
| "joi_number (Num n) = (- MAX_SAFE_INTEGER \<le> n \<and> n \<le> MAX_SAFE_INTEGER)"
| "joi_number (Boolean b) = False"

fun joi_boolean :: "jsvalue \<Rightarrow> bool" where
  "joi_boolean Undefined = True"
| "joi_boolean (Boolean b) = True"
| "joi_boolean (Num n) = False"

definition schema :: "userConfig \<Rightarrow> bool" where
  "schema u = (joi_number (u_quality u) \<and> joi_boolean (u_lossless u) \<and>
     joi_boolean (u_onlySmallerFiles u) \<and> joi_number (u_minQuality u) \<and>
     joi_boolean (u_processCss u) \<and> joi_boolean (u_processImport u))"

text \<open>The accepted configuration at its declared type \<open>WebpConverterConfig\<close>.\<close>

fun numField :: "jsvalue \<Rightarrow> int option" where
  "numField (Num n) = Some n"
| "numField Undefined = None"
| "numField (Boolean b) = None"

fun boolField :: "jsvalue \<Rightarrow> bool option" where
  "boolField (Boolean b) = Some b"
| "boolField Undefined = None"
| "boolField (Num n) = None"

definition typedConfig :: "userConfig \<Rightarrow> WebpConverterConfig" where
  "typedConfig u = \<lparr> quality = numField (u_quality u), lossless = boolField (u_lossless u),
     onlySmallerFiles = boolField (u_onlySmallerFiles u), minQuality = numField (u_minQuality u),
     processCss = boolField (u_processCss u), processImport = boolField (u_processImport u) \<rparr>"

section \<open>The quality search\<close>

text \<open>
  The codec \<open>sharp(imageBuffer).webp({ quality, lossless }).toBuffer()\<close> is an external
  library: a parameter of the model.  \<open>None\<close> is a rejected promise (the codec throws).
\<close>

type_synonym codec = "buffer \<Rightarrow> int \<Rightarrow> bool \<Rightarrow> buffer option"

text \<open>
  The \<open>while\<close> loop of the search.  \<open>webpSize\<close> of the source is always
  \<open>webpBuffer.length\<close>, so it is read off the buffer.
\<close>

function quality_loop :: "codec \<Rightarrow> buffer \<Rightarrow> nat \<Rightarrow> int \<Rightarrow> buffer \<Rightarrow> int \<Rightarrow> buffer option" where
  "quality_loop sharp imageBuffer originalSize minQ webpBuffer currentQuality =
     (if length webpBuffer \<ge> originalSize \<and> currentQuality \<ge> minQ then
        (case sharp imageBuffer currentQuality False of
           None \<Rightarrow> None
         | Some b \<Rightarrow> quality_loop sharp imageBuffer originalSize minQ b (currentQuality - 5))
      else Some webpBuffer)"
  by pat_completeness auto
termination
  by (relation "measure (\<lambda>(sharp, imageBuffer, originalSize, minQ, webpBuffer, currentQuality).
        nat (currentQuality - minQ + 1))") auto

declare quality_loop.simps [simp del]

text \<open>The first encoding at the configured quality, then the search.\<close>

definition transcode :: "codec \<Rightarrow> buffer \<Rightarrow> int \<Rightarrow> bool \<Rightarrow> int \<Rightarrow> buffer option" where
  "transcode sharp imageBuffer q ll minQ =
     (case sharp imageBuffer q ll of
        None \<Rightarrow> None
      | Some webpBuffer \<Rightarrow>
          if length webpBuffer \<ge> length imageBuffer \<and> \<not> ll \<and> q > minQ
          then quality_loop sharp imageBuffer (length imageBuffer) minQ webpBuffer (q - 5)
          else Some webpBuffer)"

section \<open>Converting one file of the output tree\<close>

text \<open>\<open>imagePath.replace(/\.(jpg|jpeg|png)$/, '.webp')\<close>.\<close>

definition webpPathOf :: "jsstring \<Rightarrow> jsstring" where
  "webpPathOf p =
     (if endsWith p (js ''.jpg'') then take (length p - 4) p @ js ''.webp''
      else if endsWith p (js ''.jpeg'') then take (length p - 5) p @ js ''.webp''
      else if endsWith p (js ''.png'') then take (length p - 4) p @ js ''.webp''
      else p)"

text \<open>
  The branch the converter takes for a file, with the bytes saved when the compact file is
  smaller; \<open>Failed\<close> is the \<open>catch\<close> branch.
\<close>

datatype outcome = Smaller nat | LargerKept | LargerSkipped | AlreadyExists | Failed

text \<open>
  The body of the callback of \<open>imageFiles.map\<close> in \<open>convertToWebp\<close>: the outcome and the
  file it writes, if any.  The defaults are those of the destructuring
  \<open>const { quality = 85, lossless = false, onlySmallerFiles = true, minQuality = 70 } = options\<close>.
\<close>

definition orDefault :: "'a \<Rightarrow> 'a option \<Rightarrow> 'a" where
  "orDefault d v = (case v of None \<Rightarrow> d | Some x \<Rightarrow> x)"

definition convertFile ::
  "codec \<Rightarrow> WebpConverterConfig \<Rightarrow> filesystem \<Rightarrow> jsstring \<Rightarrow> outcome \<times> (jsstring \<times> buffer) option" where
  "convertFile sharp options fs imagePath =
     (case readFileSync fs imagePath of
        None \<Rightarrow> (Failed, None)
      | Some imageBuffer \<Rightarrow>
          if existsSync fs (webpPathOf imagePath) then (AlreadyExists, None)
          else
            (case transcode sharp imageBuffer (orDefault 85 (quality options))
                    (orDefault False (lossless options)) (orDefault 70 (minQuality options)) of
               None \<Rightarrow> (Failed, None)
             | Some webpBuffer \<Rightarrow>
                 if length webpBuffer < length imageBuffer \<or> \<not> orDefault True (onlySmallerFiles options)
                 then
                   (if length webpBuffer < length imageBuffer
                    then (Smaller (length imageBuffer - length webpBuffer),
                          Some (webpPathOf imagePath, webpBuffer))
                    else (LargerKept, Some (webpPathOf imagePath, webpBuffer)))
                 else (LargerSkipped, None)))"

section \<open>Regular expressions\<close>

text \<open>
  The regular expressions of the source are kept as syntax trees and run by one backtracking
  matcher.  \<open>rmatch r s cs\<close> lists, in the order in which a backtracking engine tries them,
  the ways \<open>r\<close> matches a prefix of \<open>s\<close>: each with the rest of the text and the capture
  groups.  \<open>Star\<close> is greedy and refuses an empty iteration, as ECMAScript does.
  \<open>LitCI\<close> is a literal under the \<open>i\<close> flag, \<open>AtEnd\<close> is \<open>$\<close>, \<open>NegLook\<close> is \<open>(?!...)\<close>.
\<close>

datatype regex =
    Lit jsstring
  | LitCI jsstring
  | OneOf jsstring
  | NoneOf jsstring
  | Seq regex regex
  | Alt regex regex
  | Star regex
  | Group nat regex
  | NegLook regex
  | AtEnd

type_synonym captures = "(nat \<times> jsstring) list"

text \<open>
  \<open>Canonicalize\<close> of ECMAScript without the \<open>u\<close> flag: upper case, and a code unit outside
  ASCII never becomes an ASCII one, so on the ASCII letters of a literal it is this.
\<close>

definition canonicalize :: "nat \<Rightarrow> nat" where
  "canonicalize c = (if 97 \<le> c \<and> c \<le> 122 then c - 32 else c)"

fun rmatch :: "regex \<Rightarrow> jsstring \<Rightarrow> captures \<Rightarrow> (jsstring \<times> captures) list" where
  "rmatch (Lit l) s cs = (if take (length l) s = l then [(drop (length l) s, cs)] else [])"
| "rmatch (LitCI l) s cs =
     (if map canonicalize (take (length l) s) = map canonicalize l
      then [(drop (length l) s, cs)] else [])"
| "rmatch (OneOf xs) s cs =
     (case s of [] \<Rightarrow> [] | c # t \<Rightarrow> if c \<in> set xs then [(t, cs)] else [])"
| "rmatch (NoneOf xs) s cs =
     (case s of [] \<Rightarrow> [] | c # t \<Rightarrow> if c \<in> set xs then [] else [(t, cs)])"
| "rmatch (Seq r1 r2) s cs = concat (map (\<lambda>p. rmatch r2 (fst p) (snd p)) (rmatch r1 s cs))"
| "rmatch (Alt r1 r2) s cs = rmatch r1 s cs @ rmatch r2 s cs"
| "rmatch (Star r) s cs =
     concat (map (\<lambda>p. if length (fst p) < length s then rmatch (Star r) (fst p) (snd p) else [])
               (rmatch r s cs)) @ [(s, cs)]"
| "rmatch (Group n r) s cs =
     map (\<lambda>p. (fst p, (n, take (length s - length (fst p)) s) # snd p)) (rmatch r s cs)"
| "rmatch (NegLook r) s cs = (if rmatch r s cs = [] then [(s, cs)] else [])"
| "rmatch AtEnd s cs = (if s = [] then [(s, cs)] else [])"

definition Plus :: "regex \<Rightarrow> regex" where
  "Plus r = Seq r (Star r)"

definition Opt :: "regex \<Rightarrow> regex" where
  "Opt r = Alt r (Lit [])"

fun Seqs :: "regex list \<Rightarrow> regex" where
  "Seqs [] = Lit []"
| "Seqs [r] = r"
| "Seqs (r # rs) = Seq r (Seqs rs)"

text \<open>The first match at the start of \<open>s\<close>: its length and its groups.\<close>

definition matchAt :: "regex \<Rightarrow> jsstring \<Rightarrow> (nat \<times> captures) option" where
  "matchAt r s = (case rmatch r s [] of [] \<Rightarrow> None
                  | p # ps \<Rightarrow> Some (length s - length (fst p), snd p))"

definition group :: "captures \<Rightarrow> nat \<Rightarrow> jsstring" where
  "group cs n = (case map_of cs n of None \<Rightarrow> [] | Some t \<Rightarrow> t)"

text \<open>\<open>regex.test(s)\<close> for a fresh regular expression: is there a match anywhere.\<close>

fun test :: "regex \<Rightarrow> jsstring \<Rightarrow> bool" where
  "test r [] = (matchAt r [] \<noteq> None)"
| "test r (c # t) = (matchAt r (c # t) \<noteq> None \<or> test r t)"

text \<open>
  All matches of a global regular expression, left to right (\<open>s.match(/.../g)\<close>, and the
  loop \<open>while ((m = regex.exec(s)) !== null)\<close>): the index, the matched text and the groups
  of each.  After an empty match the search moves on by one code unit; no pattern of the
  source matches the empty string.
\<close>

function execAll :: "regex \<Rightarrow> nat \<Rightarrow> jsstring \<Rightarrow> (nat \<times> jsstring \<times> captures) list" where
  "execAll r i s =
     (case matchAt r s of
        None \<Rightarrow> (case s of [] \<Rightarrow> [] | c # t \<Rightarrow> execAll r (Suc i) t)
      | Some (n, cs) \<Rightarrow>
          if n = 0 then (i, [], cs) # (case s of [] \<Rightarrow> [] | c # t \<Rightarrow> execAll r (Suc i) t)
          else (i, take n s, cs) # execAll r (i + n) (drop n s))"
  by pat_completeness auto
termination
  by (relation "measure (\<lambda>(r, i, s). length s)") (auto simp: matchAt_def split: list.splits)

declare execAll.simps [simp del]

text \<open>
  \<open>s.replace(regex, fn)\<close> for a global regular expression: the callback gets the matched
  text, the groups and the offset of the match in \<open>s\<close>.
\<close>

function replaceFn ::
  "regex \<Rightarrow> (jsstring \<Rightarrow> captures \<Rightarrow> nat \<Rightarrow> jsstring) \<Rightarrow> nat \<Rightarrow> jsstring \<Rightarrow> jsstring" where
  "replaceFn r f i s =
     (case matchAt r s of
        None \<Rightarrow> (case s of [] \<Rightarrow> [] | c # t \<Rightarrow> c # replaceFn r f (Suc i) t)
      | Some (n, cs) \<Rightarrow>
          if n = 0 then f [] cs i @ (case s of [] \<Rightarrow> [] | c # t \<Rightarrow> c # replaceFn r f (Suc i) t)
          else f (take n s) cs i @ replaceFn r f (i + n) (drop n s))"
  by pat_completeness auto
termination
  by (relation "measure (\<lambda>(r, f, i, s). length s)") (auto simp: matchAt_def split: list.splits)

declare replaceFn.simps [simp del]

text \<open>\<open>s.substring(a, b)\<close>, \<open>s[i]\<close>, \<open>s.indexOf(c)\<close> and \<open>s.trim()\<close>.\<close>

definition substring :: "jsstring \<Rightarrow> nat \<Rightarrow> nat \<Rightarrow> jsstring" where
  "substring s a b =
     (let a' = min a (length s); b' = min b (length s)
      in take (max a' b' - min a' b') (drop (min a' b') s))"

definition charAt :: "jsstring \<Rightarrow> nat \<Rightarrow> nat option" where
  "charAt s i = (if i < length s then Some (s ! i) else None)"

fun indexOf :: "jsstring \<Rightarrow> nat \<Rightarrow> nat option" where
  "indexOf [] c = None"
| "indexOf (x # xs) c = (if x = c then Some 0 else map_option Suc (indexOf xs c))"

definition whitespace :: jsstring where
  "whitespace = [9, 10, 11, 12, 13, 32, 160, 5760, 8192, 8193, 8194, 8195, 8196, 8197, 8198,
     8199, 8200, 8201, 8202, 8232, 8233, 8239, 8287, 12288, 65279]"

definition trim :: "jsstring \<Rightarrow> jsstring" where
  "trim s = rev (dropWhile (\<lambda>c. c \<in> set whitespace) (rev (dropWhile (\<lambda>c. c \<in> set whitespace) s)))"

section \<open>The stylesheet rewriter\<close>

text \<open>
  \<open>isMultipleBackground\<close>: more than one match of \<open>/url\(/g\<close>, or a match of
  \<open>/,(?![^(]*\))/g\<close>.
\<close>

definition commaOutsideFunctions :: regex where
  "commaOutsideFunctions = Seq (Lit (js '','')) (NegLook (Seq (Star (NoneOf (js ''(''))) (Lit (js '')''))))"

definition isMultipleBackground :: "jsstring \<Rightarrow> bool" where
  "isMultipleBackground cssRule =
     (if length (execAll (Lit (js ''url('')) 0 cssRule) > 1 then True
      else test commaOutsideFunctions cssRule)"

text \<open>\<open>/url\(['"]?([^'")]+\.(jpe?g|png))['"]?\)/gi\<close>\<close>

definition urlRegex :: regex where
  "urlRegex = Seqs [LitCI (js ''url(''), Opt (OneOf (js '''\"'')),
     Group 1 (Seqs [Plus (NoneOf (js '''\")'')), LitCI (js ''.''),
        Group 2 (Alt (Seqs [LitCI (js ''jp''), Opt (LitCI (js ''e'')), LitCI (js ''g'')])
                     (LitCI (js ''png'')))]),
     Opt (OneOf (js '''\"'')), Lit (js '')'')]"

text \<open>
  The two loops that find the rule around a reference:
  \<open>while (startPos > 0 && cssContent[startPos] !== '{') startPos--\<close> and
  \<open>while (endPos < cssContent.length && cssContent[endPos] !== '}') endPos++\<close>.
\<close>

fun scanBack :: "jsstring \<Rightarrow> nat \<Rightarrow> nat" where
  "scanBack s 0 = 0"
| "scanBack s (Suc n) = (if charAt s (Suc n) \<noteq> Some 123 then scanBack s n else Suc n)"

function scanFwd :: "jsstring \<Rightarrow> nat \<Rightarrow> nat" where
  "scanFwd s e = (if e < length s \<and> charAt s e \<noteq> Some 125 then scanFwd s (Suc e) else e)"
  by pat_completeness auto
termination
  by (relation "measure (\<lambda>(s, e). length s - e)") auto

declare scanFwd.simps [simp del]

definition currentRule :: "jsstring \<Rightarrow> nat \<Rightarrow> jsstring" where
  "currentRule cssContent offset =
     substring cssContent (scanBack cssContent offset + 1) (scanFwd cssContent offset)"

text \<open>\<open>imgPath.replace(/\.(jpe?g|png)$/i, '.webp')\<close>\<close>

definition endsWithCI :: "jsstring \<Rightarrow> jsstring \<Rightarrow> bool" where
  "endsWithCI s p = endsWith (map canonicalize s) (map canonicalize p)"

definition cssWebpPath :: "jsstring \<Rightarrow> jsstring" where
  "cssWebpPath p =
     (if endsWithCI p (js ''.jpg'') then take (length p - 4) p @ js ''.webp''
      else if endsWithCI p (js ''.jpeg'') then take (length p - 5) p @ js ''.webp''
      else if endsWithCI p (js ''.png'') then take (length p - 4) p @ js ''.webp''
      else p)"

definition placeholder :: "jsstring \<Rightarrow> jsstring \<Rightarrow> jsstring" where
  "placeholder imgPath webpPath =
     js ''__WEBP_PLACEHOLDER__'' @ imgPath @ js ''__'' @ webpPath @ js ''__''"

text \<open>
  The callback of \<open>cssContent.replace(urlRegex, ...)\<close>.  While it runs, \<open>cssContent\<close> is still
  the text that was read.  \<open>remote\<close> says whether the variant excludes \<open>http://\<close> and
  \<open>https://\<close> references (the attribute variant does, the \<open>@supports\<close> variant does not).
\<close>

definition urlCallback :: "bool \<Rightarrow> jsstring \<Rightarrow> jsstring \<Rightarrow> captures \<Rightarrow> nat \<Rightarrow> jsstring" where
  "urlCallback remote cssContent match cs offset =
     (let imgPath = group cs 1 in
      if endsWith imgPath (js ''.webp'') \<or> startsWith imgPath (js ''data:'') \<or>
         (remote \<and> (startsWith imgPath (js ''http://'') \<or> startsWith imgPath (js ''https://'')))
      then match
      else if isMultipleBackground (currentRule cssContent offset) then match
      else placeholder imgPath (cssWebpPath imgPath))"

text \<open>\<open>/__WEBP_PLACEHOLDER__([^_]+)__([^_]+)__/g\<close>\<close>

definition placeholderRegex :: regex where
  "placeholderRegex = Seqs [Lit (js ''__WEBP_PLACEHOLDER__''), Group 1 (Plus (NoneOf (js ''_''))),
     Lit (js ''__''), Group 2 (Plus (NoneOf (js ''_''))), Lit (js ''__'')]"

definition markUrls :: "bool \<Rightarrow> jsstring \<Rightarrow> jsstring" where
  "markUrls remote cssContent = replaceFn urlRegex (urlCallback remote cssContent) 0 cssContent"

definition webpReplacements :: "jsstring \<Rightarrow> (jsstring \<times> jsstring) list" where
  "webpReplacements marked =
     map (\<lambda>m. (group (snd (snd m)) 1, group (snd (snd m)) 2)) (execAll placeholderRegex 0 marked)"

text \<open>\<open>cssContent.replace(placeholderRegex, 'url("$1")')\<close>\<close>

definition restoreUrls :: "jsstring \<Rightarrow> jsstring" where
  "restoreUrls marked =
     replaceFn placeholderRegex (\<lambda>m cs i. js ''url(\"'' @ group cs 1 @ js ''\")'') 0 marked"

text \<open>
  \<open>new RegExp(`([^{}]+{[^{}]*url\\(['"]?${escapeRegExp(original)}['"]?\\)[^{}]*})`, 'g')\<close>:
  the escaped path is the path as a literal.
\<close>

definition selectorRegex :: "jsstring \<Rightarrow> regex" where
  "selectorRegex original =
     Group 1 (Seqs [Plus (NoneOf (js ''{}'')), Lit (js ''{''), Star (NoneOf (js ''{}'')),
       Lit (js ''url(''), Opt (OneOf (js '''\"'')), Lit original, Opt (OneOf (js '''\"'')),
       Lit (js '')''), Star (NoneOf (js ''{}'')), Lit (js ''}'')])"

text \<open>The selectors of the rules of the text that was read which use \<open>original\<close>.\<close>

definition selectorsOf :: "jsstring \<Rightarrow> jsstring \<Rightarrow> jsstring list" where
  "selectorsOf originalContent original =
     map (\<lambda>m. let fullRule = group (snd (snd m)) 1 in
               trim (substring fullRule 0 (case indexOf fullRule 123 of None \<Rightarrow> 0 | Some k \<Rightarrow> k)))
         (execAll (selectorRegex original) 0 originalContent)"

text \<open>The text appended by the attribute variant.\<close>

definition attrComment :: jsstring where
  "attrComment = [10, 10, 47, 42, 32, 87, 101, 98, 80, 25903, 25345, 26816, 27979, 21644, 26367,
     25442, 32, 45, 32, 20351, 29992, 67, 83, 83, 21464, 37327, 26041, 26696, 32, 42, 47, 10]"

definition attrBlock :: "jsstring \<Rightarrow> jsstring \<Rightarrow> jsstring \<Rightarrow> jsstring" where
  "attrBlock selector original webp =
     js ''html[data-webp-support=\"yes\"] {'' @ [10] @
     js ''  '' @ selector @ js '' { background-image: url(\"'' @ webp @ js ''\"); }'' @ [10] @
     js ''}'' @ [10, 10] @
     js ''html[data-webp-support=\"no\"] {'' @ [10] @
     js ''  '' @ selector @ js '' { background-image: url(\"'' @ original @ js ''\"); }'' @ [10] @
     js ''}'' @ [10, 10]"

text \<open>
  The body of \<open>cssFiles.forEach\<close> in the attribute variant of \<open>processCssFiles\<close>, on the text
  of one stylesheet: the text written back, or \<open>None\<close> when the file is not written.
\<close>

definition processCssFile :: "jsstring \<Rightarrow> jsstring option" where
  "processCssFile originalContent =
     (let marked = markUrls True originalContent;
          reps = webpReplacements marked
      in if length reps > 0
         then Some (restoreUrls marked @ attrComment @
                concat (map (\<lambda>rp. concat (map (\<lambda>selector. attrBlock selector (fst rp) (snd rp))
                                              (selectorsOf originalContent (fst rp)))) reps))
         else None)"

text \<open>The text appended by the \<open>@supports\<close> variant (\<open>css-processor.ts\<close>).\<close>

definition supportsComment :: jsstring where
  "supportsComment = [10, 10, 47, 42, 32, 87, 101, 98, 80, 25903, 25345, 26816, 27979, 21644,
     26367, 25442, 32, 42, 47, 10]"

definition supportsOpen :: jsstring where
  "supportsOpen = js (''@supports (background-image: url(data:image/webp;base64,'' @
     ''UklGRh4AAABXRUJQVlA4TBEAAAAvAAAAAAfQ//73v/+BiOh/AAA=)) {'') @ [10]"

definition supportsRule :: "jsstring \<Rightarrow> jsstring \<Rightarrow> jsstring \<Rightarrow> jsstring" where
  "supportsRule selector original webp =
     js ''  '' @ selector @ js '' { background-image: url(\"'' @ webp @ js ''\"), url(\"'' @
     original @ js ''\"); }'' @ [10]"

definition processCssFile_supports :: "jsstring \<Rightarrow> jsstring option" where
  "processCssFile_supports originalContent =
     (let marked = markUrls False originalContent;
          reps = webpReplacements marked
      in if length reps > 0
         then Some (restoreUrls marked @ supportsComment @ supportsOpen @
                concat (map (\<lambda>rp. concat (map (\<lambda>selector. supportsRule selector (fst rp) (snd rp))
                                              (selectorsOf originalContent (fst rp)))) reps) @
                js ''}'' @ [10])
         else None)"

section \<open>The full pass over the output tree\<close>

text \<open>
  \<open>glob.sync(path.join(distDir, '{static/**/*.{jpg,jpeg,png},*.{jpg,jpeg,png}}'))\<close>: the
  directory part of the pattern is the parameter \<open>inScope\<close>, the extension part is
  \<open>isImageFile\<close>.
\<close>

definition isImageFile :: "jsstring \<Rightarrow> bool" where
  "isImageFile p = (endsWith p (js ''.jpg'') \<or> endsWith p (js ''.jpeg'') \<or> endsWith p (js ''.png''))"

definition imageFiles :: "(jsstring \<Rightarrow> bool) \<Rightarrow> filesystem \<Rightarrow> jsstring list" where
  "imageFiles inScope fs = filter (\<lambda>p. inScope p \<and> isImageFile p) (map fst fs)"

record stats =
  totalFiles :: nat
  smallerFiles :: nat
  skippedFiles :: nat
  totalSaved :: nat

fun savedBytes :: "outcome \<Rightarrow> nat" where
  "savedBytes (Smaller n) = n"
| "savedBytes LargerKept = 0"
| "savedBytes LargerSkipped = 0"
| "savedBytes AlreadyExists = 0"
| "savedBytes Failed = 0"

fun isSmaller :: "outcome \<Rightarrow> bool" where
  "isSmaller (Smaller n) = True"
| "isSmaller LargerKept = False"
| "isSmaller LargerSkipped = False"
| "isSmaller AlreadyExists = False"
| "isSmaller Failed = False"

definition statsOf :: "outcome list \<Rightarrow> stats" where
  "statsOf os = \<lparr> totalFiles = length os, smallerFiles = length (filter isSmaller os),
     skippedFiles = length (filter (\<lambda>x. x = LargerSkipped) os),
     totalSaved = sum_list (map savedBytes os) \<rparr>"

fun applyWrites :: "filesystem \<Rightarrow> (jsstring \<times> buffer) list \<Rightarrow> filesystem" where
  "applyWrites fs [] = fs"
| "applyWrites fs (w # ws) = applyWrites (writeFileSync fs (fst w) (snd w)) ws"

fun writesOf :: "(outcome \<times> (jsstring \<times> buffer) option) list \<Rightarrow> (jsstring \<times> buffer) list" where
  "writesOf [] = []"
| "writesOf (r # rs) = (case snd r of None \<Rightarrow> writesOf rs | Some w \<Rightarrow> w # writesOf rs)"

text \<open>
  The image part of \<open>convertToWebp\<close>.  Every callback of \<open>imageFiles.map(async ...)\<close> runs
  up to its first \<open>await\<close> before any of them goes on: each reads its file and looks for the
  compact file in the tree as it was found, and the writes come afterwards (here in the order
  of the files).  The result is the new tree, the files written and the statistics.
\<close>

definition convertImages ::
  "codec \<Rightarrow> WebpConverterConfig \<Rightarrow> (jsstring \<Rightarrow> bool) \<Rightarrow> filesystem
     \<Rightarrow> filesystem \<times> (jsstring \<times> buffer) list \<times> stats" where
  "convertImages sharp options inScope fs =
     (let results = map (convertFile sharp options fs) (imageFiles inScope fs)
      in (applyWrites fs (writesOf results), writesOf results, statsOf (map fst results)))"

text \<open>
  \<open>processCssFiles\<close>: the stylesheets \<open>glob.sync(path.join(outputPath, '**/*.css'))\<close>
  finds (\<open>inOutput\<close> is the directory part of the pattern) are read, rewritten and written
  back one after the other.  The result is the new tree and the stylesheets written.
\<close>

definition cssFiles :: "(jsstring \<Rightarrow> bool) \<Rightarrow> filesystem \<Rightarrow> jsstring list" where
  "cssFiles inOutput fs = filter (\<lambda>p. inOutput p \<and> endsWith p (js ''.css'')) (map fst fs)"

definition cssStep :: "jsstring \<Rightarrow> filesystem \<times> jsstring list \<Rightarrow> filesystem \<times> jsstring list" where
  "cssStep cssFilePath acc =
     (case readFileSync (fst acc) cssFilePath of
        None \<Rightarrow> acc
      | Some cssContent \<Rightarrow>
          (case processCssFile cssContent of
             None \<Rightarrow> acc
           | Some written \<Rightarrow>
               (writeFileSync (fst acc) cssFilePath written, snd acc @ [cssFilePath])))"

definition processCssFiles :: "(jsstring \<Rightarrow> bool) \<Rightarrow> filesystem \<Rightarrow> filesystem \<times> jsstring list" where
  "processCssFiles inOutput fs = fold cssStep (cssFiles inOutput fs) (fs, [])"

text \<open>
  \<open>convertToWebp\<close>: the images, and when they are all done the stylesheets if \<open>processCss\<close>
  is set.  The result is the new tree, the compact files written, the stylesheets written
  and the statistics.
\<close>

definition convertToWebp ::
  "codec \<Rightarrow> WebpConverterConfig \<Rightarrow> (jsstring \<Rightarrow> bool) \<Rightarrow> (jsstring \<Rightarrow> bool) \<Rightarrow> filesystem
     \<Rightarrow> filesystem \<times> (jsstring \<times> buffer) list \<times> jsstring list \<times> stats" where
  "convertToWebp sharp options inScope inOutput fs =
     (let images = convertImages sharp options inScope fs;
          sheets = (if orDefault True (processCss options)
                    then processCssFiles inOutput (fst images) else (fst images, []))
      in (fst sheets, fst (snd images), snd sheets, snd (snd images)))"

text \<open>
  The startup of the plugin and its \<open>onBuildComplete\<close> hook: the host checks the user
  configuration against the schema, the plugin merges it over the defaults, and after a
  production build without error it runs \<open>convertToWebp\<close> on the output tree.  (The hook
  first deletes the temporary files of the loader; they are not part of this model of the
  tree.)
\<close>

datatype pluginResult = ConfigError | NotRun
  | Ran "filesystem \<times> (jsstring \<times> buffer) list \<times> jsstring list \<times> stats"

definition webpConverter ::
  "codec \<Rightarrow> userConfig \<Rightarrow> (jsstring \<Rightarrow> bool) \<Rightarrow> (jsstring \<Rightarrow> bool) \<Rightarrow> bool \<Rightarrow> bool \<Rightarrow> filesystem
     \<Rightarrow> pluginResult" where
  "webpConverter sharp u inScope inOutput err isProduction fs =
     (if \<not> schema u then ConfigError
      else if err \<or> \<not> isProduction then NotRun
      else Ran (convertToWebp sharp (mergeConfig defaultCofig (typedConfig u)) inScope inOutput fs))"

section \<open>The import loader\<close>

text \<open>
  \<open>s.replace(pattern, replacement)\<close> with a string pattern: the first occurrence is
  replaced, and \<open>$$\<close>, \<open>$&\<close>, \<open>$`\<close> and \<open>$'\<close> of the replacement are expanded.
\<close>

fun findSub :: "jsstring \<Rightarrow> jsstring \<Rightarrow> nat option" where
  "findSub [] pat = (if pat = [] then Some 0 else None)"
| "findSub (c # s) pat =
     (if take (length pat) (c # s) = pat then Some 0 else map_option Suc (findSub s pat))"

fun getSubstitution :: "jsstring \<Rightarrow> jsstring \<Rightarrow> jsstring \<Rightarrow> jsstring \<Rightarrow> jsstring" where
  "getSubstitution matched before after [] = []"
| "getSubstitution matched before after [c] = [c]"
| "getSubstitution matched before after (c # d # t) =
     (if c = 36 \<and> d = 36 then 36 # getSubstitution matched before after t
      else if c = 36 \<and> d = 38 then matched @ getSubstitution matched before after t
      else if c = 36 \<and> d = 96 then before @ getSubstitution matched before after t
      else if c = 36 \<and> d = 39 then after @ getSubstitution matched before after t
      else c # getSubstitution matched before after (d # t))"

definition replaceStr :: "jsstring \<Rightarrow> jsstring \<Rightarrow> jsstring \<Rightarrow> jsstring" where
  "replaceStr s pat rep =
     (case findSub s pat of
        None \<Rightarrow> s
      | Some i \<Rightarrow> take i s @
          getSubstitution pat (take i s) (drop (i + length pat) s) rep @
          drop (i + length pat) s)"

text \<open>\<open>IMAGE_PATH_PATTERN\<close>: \<open>\.(?:jpe?g|png)(?:!webp)?\<close>\<close>

definition IMAGE_PATH_PATTERN :: regex where
  "IMAGE_PATH_PATTERN = Seqs [Lit (js ''.''),
     Alt (Seqs [Lit (js ''jp''), Opt (Lit (js ''e'')), Lit (js ''g'')]) (Lit (js ''png'')),
     Opt (Lit (js ''!webp''))]"

datatype importKind = Import | Require
datatype quoteKind = Single | Double

record ImportPattern =
  pat_regex :: regex
  pat_type :: importKind
  pat_quoteType :: quoteKind

text \<open>
  \<open>import\s+([^\s]+)\s+from\s+['](([^']+)IMAGE_PATH_PATTERN)[']\<close> and
  \<open>const\s+([^\s=]+)\s*=\s*require\s*\(\s*['](([^']+)IMAGE_PATH_PATTERN)[']\s*\)\<close>, each
  for the quote \<open>q\<close>.
\<close>

definition importRegex :: "jsstring \<Rightarrow> regex" where
  "importRegex q = Seqs [Lit (js ''import''), Plus (OneOf whitespace),
     Group 1 (Plus (NoneOf whitespace)), Plus (OneOf whitespace), Lit (js ''from''),
     Plus (OneOf whitespace), OneOf q,
     Group 2 (Seq (Group 3 (Plus (NoneOf q))) IMAGE_PATH_PATTERN), OneOf q]"

definition requireRegex :: "jsstring \<Rightarrow> regex" where
  "requireRegex q = Seqs [Lit (js ''const''), Plus (OneOf whitespace),
     Group 1 (Plus (NoneOf (js ''='' @ whitespace))), Star (OneOf whitespace), Lit (js ''=''),
     Star (OneOf whitespace), Lit (js ''require''), Star (OneOf whitespace), Lit (js ''(''),
     Star (OneOf whitespace), OneOf q,
     Group 2 (Seq (Group 3 (Plus (NoneOf q))) IMAGE_PATH_PATTERN), OneOf q,
     Star (OneOf whitespace), Lit (js '')'')]"

definition importPatterns :: "ImportPattern list" where
  "importPatterns =
     [\<lparr> pat_regex = importRegex [39], pat_type = Import, pat_quoteType = Single \<rparr>,
      \<lparr> pat_regex = importRegex [34], pat_type = Import, pat_quoteType = Double \<rparr>,
      \<lparr> pat_regex = requireRegex [39], pat_type = Require, pat_quoteType = Single \<rparr>,
      \<lparr> pat_regex = requireRegex [34], pat_type = Require, pat_quoteType = Double \<rparr>]"

text \<open>\<open>DISABLE_COMMENT_PATTERN\<close>: \<open>/\/\*\*\s*disabled-webp-convert-plugin\s*\*\//\<close>\<close>

definition DISABLE_COMMENT_PATTERN :: regex where
  "DISABLE_COMMENT_PATTERN = Seqs [Lit (js ''/**''), Star (OneOf whitespace),
     Lit (js ''disabled-webp-convert-plugin''), Star (OneOf whitespace), Lit (js ''*/'')]"

text \<open>
  \<open>ImportInfo\<close>; its \<open>fileInfo\<close> is written once and never read, and is left out.
  \<open>resolveError\<close> says whether the \<open>catch\<close> branch ran.
\<close>

record ImportInfo =
  importType :: importKind
  quoteType :: quoteKind
  variableName :: jsstring
  path :: jsstring
  fullMatch :: jsstring
  startIndex :: nat
  endIndex :: nat
  imagePath :: "jsstring option"
  resolveError :: bool
  skipWebpConversion :: bool

text \<open>
  What a run of the loader reads and changes: the set of processed image paths, the disk, the
  temporary compact files, the text being patched and the imports found (\<open>imports\<close> in the
  source).  The optional \<open>addTmpWebpFile\<close> of the compilation is taken to be there.
\<close>

record loaderState =
  processedImagePaths :: "jsstring set"
  disk :: filesystem
  tempWebpFiles :: "jsstring list"
  modifiedSource :: jsstring
  importsFound :: "ImportInfo list"

definition addTmpWebpFile :: "jsstring \<Rightarrow> jsstring list \<Rightarrow> jsstring list" where
  "addTmpWebpFile p ts = (if p \<in> set ts then ts else ts @ [p])"

text \<open>\<open>options.quality || 85\<close>: an absent value and \<open>0\<close> both give the default.\<close>

definition orElse :: "int option \<Rightarrow> int \<Rightarrow> int" where
  "orElse v d = (case v of None \<Rightarrow> d | Some n \<Rightarrow> if n = 0 then d else n)"

text \<open>
  The end of the loop body: \<open>imports.push(importInfo)\<close>, and the marker is stripped or the
  path is rewritten in \<open>modifiedSource\<close>.
\<close>

definition patchSource :: "bool \<Rightarrow> bool \<Rightarrow> ImportInfo \<Rightarrow> loaderState \<Rightarrow> loaderState" where
  "patchSource hasSkipWebpMark rewritePath importInfo st =
     st \<lparr> importsFound := importsFound st @ [importInfo],
          modifiedSource :=
            (if hasSkipWebpMark then
               replaceStr (modifiedSource st) (fullMatch importInfo)
                 (replaceStr (fullMatch importInfo) (path importInfo)
                    (take (length (path importInfo) - 5) (path importInfo)))
             else if rewritePath then
               replaceStr (modifiedSource st) (fullMatch importInfo)
                 (replaceStr (fullMatch importInfo) (path importInfo) (webpPathOf (path importInfo)))
             else modifiedSource st) \<rparr>"

text \<open>
  The conversion of an image that exists and is not opted out: the path is added to the
  processed paths, then the file is read and encoded; an error of either goes to the
  \<open>catch\<close> branch.  The result says whether the path is to be rewritten and whether the
  \<open>catch\<close> branch ran.
\<close>

definition convertImport ::
  "codec \<Rightarrow> WebpConverterConfig \<Rightarrow> jsstring \<Rightarrow> loaderState \<Rightarrow> (bool \<times> bool) \<times> loaderState" where
  "convertImport sharp options imgPath st =
     (let st1 = st \<lparr> processedImagePaths := insert imgPath (processedImagePaths st) \<rparr> in
      case readFileSync (disk st1) imgPath of
        None \<Rightarrow> ((False, True), st1)
      | Some imageBuffer \<Rightarrow>
          (case transcode sharp imageBuffer (orElse (quality options) 85)
                  (orDefault False (lossless options)) (orElse (minQuality options) 70) of
             None \<Rightarrow> ((False, True), st1)
           | Some webpBuffer \<Rightarrow>
               if length webpBuffer < length imageBuffer \<or> onlySmallerFiles options \<noteq> Some True
               then ((True, False),
                     st1 \<lparr> disk := writeFileSync (disk st1) (webpPathOf imgPath) webpBuffer,
                           tempWebpFiles := addTmpWebpFile (webpPathOf imgPath) (tempWebpFiles st1) \<rparr>)
               else ((False, False), st1)))"

text \<open>
  For a match of a pattern, \<open>match[2]\<close> is the import path: \<open>hasSkipWebpMark\<close> and
  \<open>cleanPath\<close> of the loop body.
\<close>

definition hasSkipWebpMark :: "nat \<times> jsstring \<times> captures \<Rightarrow> bool" where
  "hasSkipWebpMark m = endsWith (group (snd (snd m)) 2) (js ''!webp'')"

definition cleanPath :: "nat \<times> jsstring \<times> captures \<Rightarrow> jsstring" where
  "cleanPath m =
     (if hasSkipWebpMark m then take (length (group (snd (snd m)) 2) - 5) (group (snd (snd m)) 2)
      else group (snd (snd m)) 2)"

text \<open>The body of the \<open>while\<close> loop of \<open>processImports\<close> for one match of a pattern.\<close>

definition processMatch ::
  "(jsstring \<Rightarrow> jsstring option) \<Rightarrow> codec \<Rightarrow> WebpConverterConfig \<Rightarrow> bool \<Rightarrow> ImportPattern
     \<Rightarrow> nat \<times> jsstring \<times> captures \<Rightarrow> loaderState \<Rightarrow> loaderState" where
  "processMatch resolve sharp options isFileDisabled pat m st =
     (let importInfo = \<lparr> importType = pat_type pat, quoteType = pat_quoteType pat,
            variableName = group (snd (snd m)) 1, path = group (snd (snd m)) 2,
            fullMatch = fst (snd m), startIndex = fst m, endIndex = fst m + length (fst (snd m)),
            imagePath = None, resolveError = False,
            skipWebpConversion = (isFileDisabled \<or> hasSkipWebpMark m) \<rparr>
      in case resolve (cleanPath m) of
           None \<Rightarrow> patchSource (hasSkipWebpMark m) False (importInfo \<lparr> resolveError := True \<rparr>) st
         | Some imgPath \<Rightarrow>
             if imgPath \<in> processedImagePaths st then st
             else if existsSync (disk st) imgPath \<and> \<not> (isFileDisabled \<or> hasSkipWebpMark m) then
               (case convertImport sharp options imgPath st of
                  ((rewritePath, failed), st1) \<Rightarrow>
                    patchSource (hasSkipWebpMark m) rewritePath
                      (importInfo \<lparr> imagePath := Some imgPath, resolveError := failed \<rparr>) st1)
             else patchSource (hasSkipWebpMark m) False
                    (importInfo \<lparr> imagePath := Some imgPath \<rparr>) st)"

text \<open>
  The two nested loops: every pattern, and every match of it in the text that was read.  The
  model is of one run of the loader; the pattern objects, which the runs of the source share,
  are its own here.
\<close>

definition allMatches :: "jsstring \<Rightarrow> (ImportPattern \<times> nat \<times> jsstring \<times> captures) list" where
  "allMatches source =
     concat (map (\<lambda>pat. map (Pair pat) (execAll (pat_regex pat) 0 source)) importPatterns)"

definition scanImports ::
  "(jsstring \<Rightarrow> jsstring option) \<Rightarrow> codec \<Rightarrow> WebpConverterConfig \<Rightarrow> bool \<Rightarrow> jsstring
     \<Rightarrow> loaderState \<Rightarrow> loaderState" where
  "scanImports resolve sharp options isFileDisabled source st =
     fold (\<lambda>pm. processMatch resolve sharp options isFileDisabled (fst pm) (snd pm))
          (allMatches source) st"

text \<open>
  \<open>imports.filter((item, index, self) =>
     index === self.findIndex((t) => t.fullMatch === item.fullMatch))\<close>
\<close>

fun findIndex :: "('a \<Rightarrow> bool) \<Rightarrow> 'a list \<Rightarrow> nat option" where
  "findIndex P [] = None"
| "findIndex P (x # xs) = (if P x then Some 0 else map_option Suc (findIndex P xs))"

definition dedupImports :: "ImportInfo list \<Rightarrow> ImportInfo list" where
  "dedupImports self =
     map snd (filter (\<lambda>ix. findIndex (\<lambda>t. fullMatch t = fullMatch (snd ix)) self = Some (fst ix))
                     (enumerate 0 self))"

definition processImports ::
  "(jsstring \<Rightarrow> jsstring option) \<Rightarrow> codec \<Rightarrow> WebpConverterConfig \<Rightarrow> jsstring
     \<Rightarrow> loaderState \<Rightarrow> loaderState" where
  "processImports resolve sharp options source st =
     (let st1 = scanImports resolve sharp options
                  (test DISABLE_COMMENT_PATTERN (take 500 source)) source
                  (st \<lparr> modifiedSource := source, importsFound := [] \<rparr>)
      in st1 \<lparr> importsFound := dedupImports (importsFound st1) \<rparr>)"

text \<open>The development branch: only the markers are stripped.\<close>

definition stripMark :: "ImportPattern \<times> nat \<times> jsstring \<times> captures \<Rightarrow> jsstring \<Rightarrow> jsstring" where
  "stripMark pm modified =
     (let importPath = group (snd (snd (snd pm))) 2 in
      if endsWith importPath (js ''!webp'')
      then replaceStr modified (fst (snd (snd pm)))
             (replaceStr (fst (snd (snd pm))) importPath (take (length importPath - 5) importPath))
      else modified)"

definition removeMarks :: "jsstring \<Rightarrow> jsstring" where
  "removeMarks source = fold stripMark (allMatches source) source"

text \<open>
  \<open>/\.(js|jsx|ts|tsx)$/.test(resourcePath)\<close>; \<open>/node_modules/.test(resourcePath)\<close> is
  a search for the text.
\<close>

definition isScript :: "jsstring \<Rightarrow> bool" where
  "isScript p = (endsWith p (js ''.js'') \<or> endsWith p (js ''.jsx'') \<or> endsWith p (js ''.ts'') \<or>
     endsWith p (js ''.tsx''))"

text \<open>
  The loader: the text it hands back, with the state it leaves.  \<open>isProduction\<close> is
  \<open>process.env.NODE_ENV === 'production'\<close>.
\<close>

definition loader ::
  "bool \<Rightarrow> (jsstring \<Rightarrow> jsstring option) \<Rightarrow> codec \<Rightarrow> WebpConverterConfig \<Rightarrow> jsstring \<Rightarrow> jsstring
     \<Rightarrow> loaderState \<Rightarrow> jsstring \<times> loaderState" where
  "loader isProduction resolve sharp options resourcePath source st =
     (if \<not> isScript resourcePath \<or> findSub resourcePath (js ''node_modules'') \<noteq> None
      then (source, st)
      else if \<not> isProduction then (removeMarks source, st)
      else (let st1 = processImports resolve sharp options source st
            in (modifiedSource st1, st1)))"

section \<open>Definitions used to state the properties\<close>






text \<open>
  What the specification describes for the imports: the matches are deduplicated by their
  matched text first, and the replacements are made for the matches that remain.
\<close>

definition dedupMatches ::
  "(ImportPattern \<times> nat \<times> jsstring \<times> captures) list \<Rightarrow> (ImportPattern \<times> nat \<times> jsstring \<times> captures) list" where
  "dedupMatches ms =
     map snd (filter (\<lambda>ix. findIndex (\<lambda>t. fst (snd (snd t)) = fst (snd (snd (snd ix)))) ms = Some (fst ix))
                     (enumerate 0 ms))"

definition rewriteDedupFirst ::
  "(jsstring \<Rightarrow> jsstring option) \<Rightarrow> codec \<Rightarrow> WebpConverterConfig \<Rightarrow> jsstring
     \<Rightarrow> loaderState \<Rightarrow> loaderState" where
  "rewriteDedupFirst resolve sharp options source st =
     fold (\<lambda>pm. processMatch resolve sharp options
                   (test DISABLE_COMMENT_PATTERN (take 500 source)) (fst pm) (snd pm))
          (dedupMatches (allMatches source))
          (st \<lparr> modifiedSource := source, importsFound := [] \<rparr>)"

text \<open>Lambda-free forms of the matcher's sequence and star, for evaluation.\<close>

primrec bindm :: "regex \<Rightarrow> (jsstring \<times> captures) list \<Rightarrow> (jsstring \<times> captures) list" where
  "bindm r [] = []"
| "bindm r (p # ps) = rmatch r (fst p) (snd p) @ bindm r ps"

primrec starm :: "regex \<Rightarrow> nat \<Rightarrow> (jsstring \<times> captures) list \<Rightarrow> (jsstring \<times> captures) list" where
  "starm r n [] = []"
| "starm r n (p # ps) =
     (if length (fst p) < n then rmatch (Star r) (fst p) (snd p) else []) @ starm r n ps"

section \<open>Example inputs\<close>

definition exampleCodec :: codec where
  "exampleCodec img q ll = Some (replicate (if q = 80 then 110 else if q = 75 then 105 else 98) 0)"

definition largerCodec :: codec where
  "largerCodec img q ll = Some (replicate (100 + nat q) 0)"

definition halfCodec :: codec where
  "halfCodec img q ll = Some (take (length img div 2) img)"

definition invertedConfig :: userConfig where
  "invertedConfig = \<lparr> u_quality = Num 60, u_lossless = Undefined, u_onlySmallerFiles = Undefined,
     u_minQuality = Num 80, u_processCss = Undefined, u_processImport = Undefined \<rparr>"

definition bannerSheet :: jsstring where
  "bannerSheet = js ''.banner { background-image: url(images/a.jpg); }''"





definition resolveX :: "jsstring \<Rightarrow> jsstring option" where
  "resolveX p = (if p = js ''./x.png'' then Some (js ''/p/x.png'') else None)"

definition diskX :: filesystem where
  "diskX = [(js ''/p/x.png'', [1, 2, 3, 4])]"

definition freshState :: "filesystem \<Rightarrow> loaderState" where
  "freshState fs = \<lparr> processedImagePaths = {}, disk = fs, tempWebpFiles = [],
     modifiedSource = [], importsFound = [] \<rparr>"

definition twoImports :: jsstring where
  "twoImports = js ''import a from './x.png';'' @ [10] @ js ''import b from './x.png!webp';''"

definition markedImport :: jsstring where
  "markedImport = js ''import b from './x.png!webp';''"


definition underscoreSheet :: jsstring where
  "underscoreSheet = js ''.a{background:url(a.png)}.b{background:url(b_c.png)}''"

definition doubleUnderscoreSheet :: jsstring where
  "doubleUnderscoreSheet = js ''.a{background:url(a.png)}.b{background:url(b__c.png)}''"



definition sharedPathSheet :: jsstring where
  "sharedPathSheet = js ''.a{background:url(a.png),url(b.gif)}.b{background:url(a.png)}''"

definition mixedSheet :: jsstring where
  "mixedSheet = js ''.a{background:url(a.png),url(b.gif)}.b{background:url(c.png)}''"

section \<open>Properties of the quality search\<close>

lemma quality_loop_first_smaller:
  "\<lbrakk> \<forall>j<k. \<exists>b. sharp img (cq - 5 * int j) False = Some b \<and> osz \<le> length b;
     sharp img (cq - 5 * int k) False = Some bk; length bk < osz;
     minQ \<le> cq - 5 * int k; osz \<le> length buf \<rbrakk>
   \<Longrightarrow> quality_loop sharp img osz minQ buf cq = Some bk"
proof (induction k arbitrary: cq buf)
  case 0
  then show ?case
    by (simp add: quality_loop.simps [of sharp img osz minQ buf cq]
        quality_loop.simps [of sharp img osz minQ bk "cq - 5"])
next
  case (Suc k)
  from Suc.prems(1) obtain b0 where b0: "sharp img cq False = Some b0" "osz \<le> length b0"
    by force
  have step: "\<forall>j<k. \<exists>b. sharp img (cq - 5 - 5 * int j) False = Some b \<and> osz \<le> length b"
  proof (intro allI impI)
    fix j assume "j < k"
    then have "Suc j < Suc k" by simp
    with Suc.prems(1) obtain b where "sharp img (cq - 5 * int (Suc j)) False = Some b \<and> osz \<le> length b"
      by blast
    then show "\<exists>b. sharp img (cq - 5 - 5 * int j) False = Some b \<and> osz \<le> length b"
      by (simp add: algebra_simps)
  qed
  have k': "sharp img (cq - 5 - 5 * int k) False = Some bk" "minQ \<le> cq - 5 - 5 * int k"
    using Suc.prems(2,4) by (simp_all add: algebra_simps)
  have "quality_loop sharp img osz minQ b0 (cq - 5) = Some bk"
    by (rule Suc.IH [OF step k'(1) Suc.prems(3) k'(2) b0(2)])
  moreover have "minQ \<le> cq" using Suc.prems(4) by simp
  ultimately show ?case
    using Suc.prems(5) b0 by (simp add: quality_loop.simps [of sharp img osz minQ buf cq])
qed

text \<open>
  C1.  When the encoding at the configured quality is not smaller than the original, the mode
  is lossy and the quality is above the floor, the search encodes again at the quality lowered
  by 5 for each attempt, as long as the result is not smaller and the quality is at least the
  floor, and it returns the first attempt that is smaller: the attempt number \<open>k\<close> when the
  attempts before it are not smaller and its quality is at least the floor.  With quality 80,
  floor 60 and sizes of 110, 105 and 98 percent at 80, 75 and 70, the buffer returned is the
  one encoded at 70.
\<close>

theorem transcode_accepts_first_smaller:
  assumes "sharp img q False = Some b0" and "length img \<le> length b0" and "minQ < q"
    and "1 \<le> k" and "minQ \<le> q - 5 * int k"
    and "\<forall>j. 1 \<le> j \<and> j < k \<longrightarrow>
           (\<exists>b. sharp img (q - 5 * int j) False = Some b \<and> length img \<le> length b)"
    and "sharp img (q - 5 * int k) False = Some bk" and "length bk < length img"
  shows "transcode sharp img q False minQ = Some bk"
proof -
  obtain k' where k': "k = Suc k'" using assms(4) by (cases k) auto
  have a: "\<forall>j<k'. \<exists>b. sharp img (q - 5 - 5 * int j) False = Some b \<and> length img \<le> length b"
  proof (intro allI impI)
    fix j assume "j < k'"
    then have "1 \<le> Suc j \<and> Suc j < k" using k' by simp
    with assms(6) obtain b where "sharp img (q - 5 * int (Suc j)) False = Some b \<and> length img \<le> length b"
      by blast
    then show "\<exists>b. sharp img (q - 5 - 5 * int j) False = Some b \<and> length img \<le> length b"
      by (simp add: algebra_simps)
  qed
  have b: "sharp img (q - 5 - 5 * int k') False = Some bk" "minQ \<le> q - 5 - 5 * int k'"
    using assms(5,7) k' by (simp_all add: algebra_simps)
  have "quality_loop sharp img (length img) minQ b0 (q - 5) = Some bk"
    using quality_loop_first_smaller [where k = k' and cq = "q - 5" and sharp = sharp
        and img = img and osz = "length img" and bk = bk and minQ = minQ and buf = b0]
      a b assms(8) assms(2) by blast
  then show ?thesis using assms(1,2,3) by (simp add: transcode_def)
qed

theorem transcode_accepts_first_smaller_witness:
  "transcode exampleCodec (replicate 100 0) 80 False 60 = Some (replicate 98 0)
   \<and> exampleCodec (replicate 100 0) 70 False = Some (replicate 98 0)"
  using transcode_accepts_first_smaller [of exampleCodec "replicate 100 0" 80 "replicate 110 0" 60 2 "replicate 98 0"]
  by (simp add: exampleCodec_def less_Suc_eq numeral_2_eq_2)

lemma example_outcome:
  "convertFile exampleCodec
     \<lparr> quality = Some 80, lossless = None, onlySmallerFiles = None, minQuality = Some 60,
       processCss = None, processImport = None \<rparr>
     [(js ''a.png'', replicate 100 0)] (js ''a.png'')
   = (Smaller 2, Some (js ''a.webp'', replicate 98 0))"
  by (simp add: convertFile_def readFileSync_def existsSync_def webpPathOf_def endsWith_def js_def
      orDefault_def transcode_def exampleCodec_def
      quality_loop.simps [of exampleCodec "replicate 100 0" 100 60 "replicate 110 0" 75]
      quality_loop.simps [of exampleCodec "replicate 100 0" 100 60 "replicate 105 0" 70]
      quality_loop.simps [of exampleCodec "replicate 100 0" 100 60 "replicate 98 0" 65])

section \<open>What is written to disk\<close>

lemma quality_loop_exhausted:
  "\<lbrakk> \<forall>j\<le>K. \<exists>b. sharp img (cq - 5 * int j) False = Some b \<and> osz \<le> length b;
     sharp img (cq - 5 * int K) False = Some bK;
     minQ \<le> cq - 5 * int K; cq - 5 * int (Suc K) < minQ; osz \<le> length buf \<rbrakk>
   \<Longrightarrow> quality_loop sharp img osz minQ buf cq = Some bK"
proof (induction K arbitrary: cq buf)
  case 0
  then show ?case
    by (simp add: quality_loop.simps [of sharp img osz minQ buf cq]
        quality_loop.simps [of sharp img osz minQ bK "cq - 5"])
next
  case (Suc K)
  from Suc.prems(1) obtain b0 where b0: "sharp img cq False = Some b0" "osz \<le> length b0"
    by force
  have step: "\<forall>j\<le>K. \<exists>b. sharp img (cq - 5 - 5 * int j) False = Some b \<and> osz \<le> length b"
  proof (intro allI impI)
    fix j assume "j \<le> K"
    then have "Suc j \<le> Suc K" by simp
    with Suc.prems(1) obtain b where "sharp img (cq - 5 * int (Suc j)) False = Some b \<and> osz \<le> length b"
      by blast
    then show "\<exists>b. sharp img (cq - 5 - 5 * int j) False = Some b \<and> osz \<le> length b"
      by (simp add: algebra_simps)
  qed
  have k': "sharp img (cq - 5 - 5 * int K) False = Some bK" "minQ \<le> cq - 5 - 5 * int K"
    "cq - 5 - 5 * int (Suc K) < minQ"
    using Suc.prems(2,3,4) by (simp_all add: algebra_simps)
  have "quality_loop sharp img osz minQ b0 (cq - 5) = Some bK"
    using Suc.IH [where cq = "cq - 5" and buf = b0] step k' b0(2) by blast
  moreover have "minQ \<le> cq" using Suc.prems(3) by simp
  ultimately show ?case
    using Suc.prems(5) b0 by (simp add: quality_loop.simps [of sharp img osz minQ buf cq])
qed

text \<open>
  C2.  When the search ends with a buffer that is not smaller than the original (in particular
  when it is exhausted down to the floor, \<open>quality_loop_exhausted\<close>), the converter writes
  nothing and reports \<open>LargerSkipped\<close> if \<open>onlySmallerFiles\<close> is true, and writes that last
  buffer and reports \<open>LargerKept\<close> if it is false: the compact file is written if and only
  if it is smaller than the original or \<open>onlySmallerFiles\<close> is false.
\<close>

theorem convertFile_persists_iff:
  assumes "readFileSync fs p = Some img"
    and "\<not> existsSync fs (webpPathOf p)"
    and "transcode sharp img (orDefault 85 (quality options)) (orDefault False (lossless options))
           (orDefault 70 (minQuality options)) = Some buf"
  shows "snd (convertFile sharp options fs p) =
           (if length buf < length img \<or> \<not> orDefault True (onlySmallerFiles options)
            then Some (webpPathOf p, buf) else None)
         \<and> (length img \<le> length buf \<longrightarrow>
              fst (convertFile sharp options fs p) =
                (if orDefault True (onlySmallerFiles options) then LargerSkipped else LargerKept))"
  using assms by (simp add: convertFile_def)

lemma transcode_largerCodec:
  "transcode largerCodec (replicate 100 0) 80 False 70 = Some (replicate 170 0)"
  by (simp add: transcode_def largerCodec_def
      quality_loop.simps [of largerCodec "replicate 100 0" 100 70 _ 75]
      quality_loop.simps [of largerCodec "replicate 100 0" 100 70 _ 70]
      quality_loop.simps [of largerCodec "replicate 100 0" 100 70 _ 65])

theorem convertFile_persists_iff_witness:
  "snd (convertFile largerCodec
          \<lparr> quality = Some 80, lossless = None, onlySmallerFiles = Some True, minQuality = None,
            processCss = None, processImport = None \<rparr>
          [(js ''a.png'', replicate 100 0)] (js ''a.png'')) = None
   \<and> fst (convertFile largerCodec
          \<lparr> quality = Some 80, lossless = None, onlySmallerFiles = Some True, minQuality = None,
            processCss = None, processImport = None \<rparr>
          [(js ''a.png'', replicate 100 0)] (js ''a.png'')) = LargerSkipped
   \<and> convertFile largerCodec
          \<lparr> quality = Some 80, lossless = None, onlySmallerFiles = Some False, minQuality = None,
            processCss = None, processImport = None \<rparr>
          [(js ''a.png'', replicate 100 0)] (js ''a.png'')
       = (LargerKept, Some (js ''a.webp'', replicate 170 0))"
proof -
  let ?fs = "[(js ''a.png'', replicate 100 0)]"
  let ?o1 = "\<lparr> quality = Some 80, lossless = None, onlySmallerFiles = Some True, minQuality = None,
            processCss = None, processImport = None \<rparr>"
  let ?o2 = "\<lparr> quality = Some 80, lossless = None, onlySmallerFiles = Some False, minQuality = None,
            processCss = None, processImport = None \<rparr>"
  have r: "readFileSync ?fs (js ''a.png'') = Some (replicate 100 0)"
    by (simp add: readFileSync_def)
  have e: "\<not> existsSync ?fs (webpPathOf (js ''a.png''))"
    by (simp add: existsSync_def webpPathOf_def endsWith_def js_def)
  have t1: "transcode largerCodec (replicate 100 0) (orDefault 85 (quality ?o1))
      (orDefault False (lossless ?o1)) (orDefault 70 (minQuality ?o1)) = Some (replicate 170 0)"
    using transcode_largerCodec by (simp add: orDefault_def)
  have t2: "transcode largerCodec (replicate 100 0) (orDefault 85 (quality ?o2))
      (orDefault False (lossless ?o2)) (orDefault 70 (minQuality ?o2)) = Some (replicate 170 0)"
    using transcode_largerCodec by (simp add: orDefault_def)
  have w: "webpPathOf (js ''a.png'') = js ''a.webp''"
    by (simp add: webpPathOf_def endsWith_def js_def)
  show ?thesis
    using convertFile_persists_iff [OF r e t1] convertFile_persists_iff [OF r e t2] w
    by (simp add: orDefault_def prod_eq_iff)
qed

lemma convertImport_persists_iff:
  assumes "readFileSync (disk st) p = Some img"
    and "transcode sharp img (orElse (quality options) 85) (orDefault False (lossless options))
           (orElse (minQuality options) 70) = Some buf"
  shows "disk (snd (convertImport sharp options p st)) =
           (if length buf < length img \<or> onlySmallerFiles options \<noteq> Some True
            then writeFileSync (disk st) (webpPathOf p) buf else disk st)"
  using assms by (simp add: convertImport_def Let_def)

section \<open>The floor of the search is not compared with the quality\<close>

text \<open>
  A number outside the safe range is refused, whatever the other keys are: with the floor
  \<open>2 ^ 53\<close> the plugin does not start.
\<close>

lemma unsafe_number_refused:
  "webpConverter sharp (u \<lparr> u_minQuality := Num (2 ^ 53) \<rparr>) inScope inOutput err isProduction fs
     = ConfigError"
  by (simp add: webpConverter_def schema_def MAX_SAFE_INTEGER_def)

text \<open>
  C9 (as amended).  Validation never compares \<open>minQuality\<close> with \<open>quality\<close>: a policy whose
  two numbers lie within the safe range of the validator and whose other keys are booleans or
  absent is accepted also when its floor is above its quality, the conversion runs with these
  two values, and the search then makes no further attempt: the first encoding is the result.
\<close>

theorem schema_accepts_inverted_bounds:
  assumes "u_quality u = Num q" and "u_minQuality u = Num mq" and "q < mq"
    and "- MAX_SAFE_INTEGER \<le> q" and "mq \<le> MAX_SAFE_INTEGER"
    and "joi_boolean (u_lossless u)" and "joi_boolean (u_onlySmallerFiles u)"
    and "joi_boolean (u_processCss u)" and "joi_boolean (u_processImport u)"
  shows "schema u
         \<and> webpConverter sharp u inScope inOutput False True fs =
           Ran (convertToWebp sharp (mergeConfig defaultCofig (typedConfig u)) inScope inOutput fs)
         \<and> quality (mergeConfig defaultCofig (typedConfig u)) = Some q
         \<and> minQuality (mergeConfig defaultCofig (typedConfig u)) = Some mq
         \<and> transcode sharp img q ll mq = sharp img q ll"
  using assms
  by (auto simp: webpConverter_def schema_def mergeConfig_def typedConfig_def spread_def
      transcode_def split: option.splits)

theorem schema_accepts_inverted_bounds_witness:
  "schema invertedConfig
   \<and> webpConverter halfCodec invertedConfig (\<lambda>p. True) (\<lambda>p. True) False True
       [(js ''a.png'', [1, 2, 3, 4])] =
     Ran (convertToWebp halfCodec (mergeConfig defaultCofig (typedConfig invertedConfig))
            (\<lambda>p. True) (\<lambda>p. True) [(js ''a.png'', [1, 2, 3, 4])])
   \<and> transcode halfCodec [1, 2, 3, 4] 60 False 80 = halfCodec [1, 2, 3, 4] 60 False"
  using schema_accepts_inverted_bounds [of invertedConfig 60 80 halfCodec "\<lambda>p. True"
      "\<lambda>p. True" "[(js ''a.png'', [1, 2, 3, 4])]" "[1, 2, 3, 4]" False]
  by (simp add: invertedConfig_def MAX_SAFE_INTEGER_def)

text \<open>
  C9, counterexample.  The policy with quality 60 and floor 80 is not refused: the pass runs
  and writes the compact file.
\<close>

theorem inverted_bounds_counterexample:
  "webpConverter halfCodec invertedConfig (\<lambda>p. True) (\<lambda>p. True) False True
       [(js ''a.png'', [1, 2, 3, 4])] =
     Ran ([(js ''a.png'', [1, 2, 3, 4]), (js ''a.webp'', [1, 2])], [(js ''a.webp'', [1, 2])], [],
          \<lparr> totalFiles = 1, smallerFiles = 1, skippedFiles = 0, totalSaved = 2 \<rparr>)"
  by (simp add: webpConverter_def invertedConfig_def schema_def convertImages_def imageFiles_def
      convertToWebp_def processCssFiles_def cssFiles_def Let_def MAX_SAFE_INTEGER_def
      isImageFile_def endsWith_def js_def convertFile_def readFileSync_def existsSync_def
      webpPathOf_def mergeConfig_def defaultCofig_def typedConfig_def spread_def orDefault_def
      transcode_def halfCodec_def statsOf_def writeFileSync_def)

section \<open>A second pass over the output tree\<close>
















section \<open>Evaluating the matcher\<close>

text \<open>
The sequence and the star of the matcher without a function argument, and the rewrite rules
  that run the stylesheet rewriter on a given text.
\<close>

lemma rmatch_Seq_bindm: "rmatch (Seq r1 r2) s cs = bindm r2 (rmatch r1 s cs)"
proof -
  have "concat (map (\<lambda>p. rmatch r2 (fst p) (snd p)) l) = bindm r2 l" for l
    by (induction l) simp_all
  then show ?thesis by simp
qed

lemma rmatch_Star_starm: "rmatch (Star r) s cs = starm r (length s) (rmatch r s cs) @ [(s, cs)]"
proof -
  have "concat (map (\<lambda>p. if length (fst p) < n then rmatch (Star r) (fst p) (snd p) else []) l)
        = starm r n l" for l n
    by (induction l) simp_all
  then show ?thesis by simp
qed

lemma scanBack_numeral:
  "scanBack s (numeral k) =
     (if charAt s (numeral k) \<noteq> Some 123 then scanBack s (pred_numeral k) else numeral k)"
  by (simp add: numeral_eq_Suc)

lemmas rmatch_eval = rmatch.simps(1-4) rmatch.simps(6) rmatch.simps(8-10)
  rmatch_Seq_bindm rmatch_Star_starm

lemmas css_eval = js_def markUrls_def urlRegex_def Plus_def Opt_def matchAt_def canonicalize_def
  urlCallback_def group_def endsWith_def startsWith_def currentRule_def isMultipleBackground_def
  commaOutsideFunctions_def substring_def charAt_def placeholder_def cssWebpPath_def
  endsWithCI_def replaceFn.simps execAll.simps scanFwd.simps webpReplacements_def
  placeholderRegex_def restoreUrls_def selectorsOf_def selectorRegex_def trim_def whitespace_def
  Let_def rmatch_eval scanBack_numeral attrComment_def attrBlock_def
  supportsComment_def supportsOpen_def supportsRule_def


section \<open>The rewriter on the example rule\<close>

text \<open>
Both variants on the rule
  \<^verbatim>\<open>.banner { background-image: url(images/a.jpg); }\<close>.
\<close>

lemma banner_attr:
  "processCssFile bannerSheet =
     Some (js ''.banner { background-image: url(\"images/a.jpg\"); }'' @ attrComment @
           attrBlock (js ''.banner'') (js ''images/a.jpg'') (js ''images/a.webp''))"
  unfolding bannerSheet_def processCssFile_def by (simp del: rmatch.simps add: css_eval)

lemma banner_supports:
  "processCssFile_supports bannerSheet =
     Some (js ''.banner { background-image: url(\"images/a.jpg\"); }'' @ supportsComment @
           supportsOpen @ supportsRule (js ''.banner'') (js ''images/a.jpg'') (js ''images/a.webp'')
           @ js ''}'' @ [10])"
  unfolding bannerSheet_def processCssFile_supports_def by (simp del: rmatch.simps add: css_eval)

section \<open>A second pass over a rewritten stylesheet\<close>



text \<open>
  C5.  On the rule of the specification's example the rewriter appends the fallback pair with
  \<open>.banner\<close> as selector and the two paths, but the rule itself comes back with its reference
  written \<^verbatim>\<open>url("images/a.jpg")\<close>: the placeholder is decoded to a quoted reference, so
  the original rule is not kept byte for byte.
\<close>

theorem banner_rule_requoted:
  "processCssFile bannerSheet =
     Some (js ''.banner { background-image: url(\"images/a.jpg\"); }'' @ attrComment @
           attrBlock (js ''.banner'') (js ''images/a.jpg'') (js ''images/a.webp''))
   \<and> processCssFile_supports bannerSheet =
     Some (js ''.banner { background-image: url(\"images/a.jpg\"); }'' @ supportsComment @
           supportsOpen @ supportsRule (js ''.banner'') (js ''images/a.jpg'') (js ''images/a.webp'')
           @ js ''}'' @ [10])
   \<and> js ''.banner { background-image: url(\"images/a.jpg\"); }'' \<noteq> bannerSheet"
  using banner_attr banner_supports by (simp add: bannerSheet_def js_def)

section \<open>The classification of a rule block\<close>

text \<open>
  The look-ahead of \<open>commaOutsideFunctions\<close> fails after a comma at depth 0 of a text whose
  parentheses are balanced, and the matches of \<^verbatim>\<open>url(\<close> are its occurrences.
\<close>

lemma star_noneof_Nil: "rmatch (Star (NoneOf xs)) [] cs = [([], cs)]"
  by simp










section \<open>The loader on opted-out references\<close>

text \<open>The rewrite rules that run the loader on a given text.\<close>

lemmas loader_eval = js_def Plus_def Opt_def matchAt_def group_def endsWith_def startsWith_def
  execAll.simps whitespace_def Let_def rmatch_eval
  loader_def isScript_def processImports_def scanImports_def allMatches_def importPatterns_def
  importRegex_def requireRegex_def IMAGE_PATH_PATTERN_def DISABLE_COMMENT_PATTERN_def
  processMatch_def patchSource_def convertImport_def replaceStr_def webpPathOf_def
  existsSync_def readFileSync_def writeFileSync_def addTmpWebpFile_def orElse_def orDefault_def
  transcode_def dedupImports_def removeMarks_def stripMark_def defaultCofig_def
  hasSkipWebpMark_def cleanPath_def rewriteDedupFirst_def dedupMatches_def

text \<open>
  Two facts about the loop body.  With the comment of the file present nothing is converted
  and a statement without marker is left as it is.  And a match whose image is among the
  processed paths changes nothing at all: the marker of its statement stays too.
\<close>

lemma file_optout_converts_nothing:
  "disk (processMatch resolve sharp options True pat m st) = disk st \<and>
   processedImagePaths (processMatch resolve sharp options True pat m st) = processedImagePaths st \<and>
   (\<not> hasSkipWebpMark m \<longrightarrow>
      modifiedSource (processMatch resolve sharp options True pat m st) = modifiedSource st)"
  by (simp add: processMatch_def patchSource_def Let_def split: option.splits)

lemma already_processed_is_skipped:
  "resolve (cleanPath m) = Some p \<Longrightarrow> p \<in> processedImagePaths st \<Longrightarrow>
   processMatch resolve sharp options isFileDisabled pat m st = st"
  by (simp add: processMatch_def Let_def)

lemma development_spec_example:
  "loader False resolveX halfCodec defaultCofig (js ''/p/index.tsx'')
     (js ''import logo from '@/assets/logo.png!webp'' @ [39]) (freshState diskX)
   = (js ''import logo from '@/assets/logo.png'' @ [39], freshState diskX)"
  unfolding freshState_def diskX_def resolveX_def halfCodec_def
  by (simp del: rmatch.simps add: loader_eval)

lemma production_twoImports:
  "fst (loader True resolveX halfCodec defaultCofig (js ''/p/index.tsx'') twoImports (freshState diskX))
   = js ''import a from './x.webp';'' @ [10] @ js ''import b from './x.png!webp';''"
  unfolding twoImports_def freshState_def diskX_def resolveX_def halfCodec_def
  by (simp del: rmatch.simps add: loader_eval)

lemma development_twoImports:
  "loader False resolveX halfCodec defaultCofig (js ''/p/index.tsx'') twoImports (freshState diskX)
   = (js ''import a from './x.png';'' @ [10] @ js ''import b from './x.png';'', freshState diskX)"
  unfolding twoImports_def freshState_def diskX_def resolveX_def halfCodec_def
  by (simp del: rmatch.simps add: loader_eval)

text \<open>
  C6.  In production, when the image of a reference with the marker \<^verbatim>\<open>!webp\<close> is already
  among the processed paths (here: it was converted for the import before it), the loop goes
  on to the next match at once and the statement is emitted with its marker; the development
  branch strips the marker of the same text.
\<close>

theorem optout_marker_kept_in_production:
  "fst (loader True resolveX halfCodec defaultCofig (js ''/p/index.tsx'') twoImports (freshState diskX))
     = js ''import a from './x.webp';'' @ [10] @ js ''import b from './x.png!webp';''
   \<and> fst (loader False resolveX halfCodec defaultCofig (js ''/p/index.tsx'') twoImports (freshState diskX))
     = js ''import a from './x.png';'' @ [10] @ js ''import b from './x.png';''"
  using production_twoImports development_twoImports by simp

text \<open>The text handed back in production is not the text with both markers gone.\<close>

theorem optout_marker_kept_in_production_witness:
  "fst (loader True resolveX halfCodec defaultCofig (js ''/p/index.tsx'') twoImports (freshState diskX))
     \<noteq> js ''import a from './x.webp';'' @ [10] @ js ''import b from './x.png';''"
  using optout_marker_kept_in_production by (simp add: js_def)

lemma production_markedImport:
  "loader True resolveX halfCodec defaultCofig (js ''/p/index.tsx'') markedImport (freshState diskX)
   = (js ''import b from './x.png';'',
      \<lparr> processedImagePaths = {}, disk = diskX, tempWebpFiles = [],
        modifiedSource = js ''import b from './x.png';'',
        importsFound = [\<lparr> importType = Import, quoteType = Single, variableName = js ''b'',
          path = js ''./x.png!webp'', fullMatch = js ''import b from './x.png!webp'' @ [39],
          startIndex = 0, endIndex = 28, imagePath = Some (js ''/p/x.png''),
          resolveError = False, skipWebpConversion = True \<rparr>] \<rparr>)"
  unfolding markedImport_def freshState_def diskX_def resolveX_def halfCodec_def
  by (simp del: rmatch.simps add: loader_eval)

text \<open>
  C7 (as amended).  A match registers its image path exactly when a conversion is attempted:
  the path resolves, is not registered yet, the file exists and the reference is not opted out
  (by its marker or by the comment of the file).  The path is registered before the file is
  read and encoded, so it is registered whatever the conversion does, also when the codec
  fails or the result is larger and not kept.  In every other case the registry is unchanged.
\<close>

theorem registered_iff_conversion_attempted:
  "processedImagePaths (processMatch resolve sharp options isFileDisabled pat m st) =
     (case resolve (cleanPath m) of
        None \<Rightarrow> processedImagePaths st
      | Some imgPath \<Rightarrow>
          if imgPath \<notin> processedImagePaths st \<and> existsSync (disk st) imgPath \<and>
             \<not> (isFileDisabled \<or> hasSkipWebpMark m)
          then insert imgPath (processedImagePaths st)
          else processedImagePaths st)
   \<and> p \<in> processedImagePaths (snd (convertImport sharp options p st))"
  by (auto simp: processMatch_def patchSource_def convertImport_def Let_def
      split: option.splits prod.splits)

text \<open>
  C7, counterexample.  The image of an opted-out reference exists and resolves, the loader
  handles the statement (it strips the marker), and the registry is empty afterwards.
\<close>

theorem optout_not_registered_counterexample:
  "existsSync diskX (js ''/p/x.png'') \<and>
   resolveX (js ''./x.png'') = Some (js ''/p/x.png'') \<and>
   fst (loader True resolveX halfCodec defaultCofig (js ''/p/index.tsx'') markedImport (freshState diskX))
     = js ''import b from './x.png';'' \<and>
   processedImagePaths (snd (loader True resolveX halfCodec defaultCofig (js ''/p/index.tsx'')
     markedImport (freshState diskX))) = {}"
  using production_markedImport by (simp add: existsSync_def diskX_def resolveX_def)

section \<open>Deduplication of the imports found\<close>










section \<open>The placeholder round trip\<close>

text \<open>
  A group \<open>([^c]+)\<close> followed by something that has to start with \<open>c\<close> takes the longest
  run without \<open>c\<close>: no shorter alternative can go on.
\<close>

lemma group_run_alternatives:
  assumes needs: "\<And>u cs'. u = [] \<or> hd u \<noteq> c \<Longrightarrow> rmatch r u cs' = []"
    and "s = pre @ t" and "c \<notin> set pre"
  shows "concat (map (\<lambda>p. rmatch r (fst p) (snd p))
           (map (\<lambda>p. (fst p, (n, take (length s - length (fst p)) s) # snd p))
              (rmatch (Star (NoneOf [c])) t cs)))
         = rmatch r (dropWhile (\<lambda>x. x \<noteq> c) t) ((n, pre @ takeWhile (\<lambda>x. x \<noteq> c) t) # cs)"
  using assms(2,3)
proof (induction t arbitrary: pre)
  case Nil
  then show ?case by simp
next
  case (Cons y t)
  show ?case
  proof (cases "y = c")
    case True
    then show ?thesis using Cons.prems by simp
  next
    case False
    have s': "s = (pre @ [y]) @ t" "c \<notin> set (pre @ [y])" using Cons.prems False by auto
    have last: "rmatch r (y # t) ((n, pre) # cs) = []" using needs False by simp
    show ?thesis
      using Cons.IH [OF s'] False last Cons.prems(1) by simp
  qed
qed

lemma group_run:
  assumes needs: "\<And>u cs'. u = [] \<or> hd u \<noteq> c \<Longrightarrow> rmatch r u cs' = []"
  shows "rmatch (Seq (Group n (Plus (NoneOf [c]))) r) s cs =
           (if takeWhile (\<lambda>x. x \<noteq> c) s = [] then []
            else rmatch r (dropWhile (\<lambda>x. x \<noteq> c) s) ((n, takeWhile (\<lambda>x. x \<noteq> c) s) # cs))"
proof (cases s)
  case Nil
  then show ?thesis by (simp add: Plus_def)
next
  case (Cons x t)
  show ?thesis
  proof (cases "x = c")
    case True
    then show ?thesis using Cons by (simp add: Plus_def)
  next
    case False
    have "rmatch (Seq (Group n (Plus (NoneOf [c]))) r) s cs =
          concat (map (\<lambda>p. rmatch r (fst p) (snd p))
           (map (\<lambda>p. (fst p, (n, take (length s - length (fst p)) s) # snd p))
              (rmatch (Star (NoneOf [c])) t cs)))"
      using Cons False by (simp add: Plus_def del: rmatch.simps(7))
    also have "\<dots> = rmatch r (dropWhile (\<lambda>x. x \<noteq> c) t) ((n, [x] @ takeWhile (\<lambda>x. x \<noteq> c) t) # cs)"
      by (rule group_run_alternatives [OF needs]) (use Cons False in auto)
    finally show ?thesis using Cons False by simp
  qed
qed

lemma needs_Lit: "u = [] \<or> hd u \<noteq> c \<Longrightarrow> rmatch (Lit (c # l)) u cs = []"
  by (cases u) auto

lemma needs_Seq_Lit: "u = [] \<or> hd u \<noteq> c \<Longrightarrow> rmatch (Seq (Lit (c # l)) r) u cs = []"
  by (cases u) auto

text \<open>What the decoding regular expression matches at the start of a text.\<close>

lemma rmatch_placeholderRegex:
  "rmatch placeholderRegex s [] =
     (let a = takeWhile (\<lambda>x. x \<noteq> 95) (drop 20 s);
          b = dropWhile (\<lambda>x. x \<noteq> 95) (drop 20 s);
          a2 = takeWhile (\<lambda>x. x \<noteq> 95) (drop 2 b);
          b2 = dropWhile (\<lambda>x. x \<noteq> 95) (drop 2 b)
      in if take 20 s = js ''__WEBP_PLACEHOLDER__'' \<and> a \<noteq> [] \<and> take 2 b = [95, 95] \<and>
            a2 \<noteq> [] \<and> take 2 b2 = [95, 95]
         then [(drop 2 b2, [(2, a2), (1, a)])] else [])"
proof -
  have l: "length (js ''__WEBP_PLACEHOLDER__'') = 20" by (simp add: js_def)
  have u: "js ''_'' = [95]" "js ''__'' = [95, 95]" by (simp_all add: js_def)
  have g2: "rmatch (Seq (Group 2 (Plus (NoneOf [95]))) (Lit [95, 95])) v cs =
      (if takeWhile (\<lambda>x. x \<noteq> 95) v = [] then []
       else rmatch (Lit [95, 95]) (dropWhile (\<lambda>x. x \<noteq> 95) v) ((2, takeWhile (\<lambda>x. x \<noteq> 95) v) # cs))"
    for v cs
    by (rule group_run) (rule needs_Lit)
  have g1: "rmatch (Seq (Group 1 (Plus (NoneOf [95])))
        (Seq (Lit [95, 95]) (Seq (Group 2 (Plus (NoneOf [95]))) (Lit [95, 95])))) v cs =
      (if takeWhile (\<lambda>x. x \<noteq> 95) v = [] then []
       else rmatch (Seq (Lit [95, 95]) (Seq (Group 2 (Plus (NoneOf [95]))) (Lit [95, 95])))
              (dropWhile (\<lambda>x. x \<noteq> 95) v) ((1, takeWhile (\<lambda>x. x \<noteq> 95) v) # cs))"
    for v cs
    by (rule group_run) (rule needs_Seq_Lit)
  have mid: "rmatch (Seq (Lit [95, 95]) (Seq (Group 2 (Plus (NoneOf [95]))) (Lit [95, 95]))) v cs =
      (if take 2 v = [95, 95]
       then rmatch (Seq (Group 2 (Plus (NoneOf [95]))) (Lit [95, 95])) (drop 2 v) cs else [])"
    for v cs
    by (simp del: rmatch.simps add: rmatch.simps(1) rmatch_Seq_bindm numeral_2_eq_2)
  have top: "rmatch placeholderRegex s [] =
      (if take 20 s = js ''__WEBP_PLACEHOLDER__''
       then rmatch (Seq (Group 1 (Plus (NoneOf [95])))
              (Seq (Lit [95, 95]) (Seq (Group 2 (Plus (NoneOf [95]))) (Lit [95, 95])))) (drop 20 s) []
       else [])"
    unfolding placeholderRegex_def u
    by (simp del: rmatch.simps One_nat_def add: rmatch.simps(1) rmatch_Seq_bindm l)
  show ?thesis
    unfolding top g1 mid g2 by (simp add: Let_def numeral_2_eq_2)
qed

lemma matchAt_placeholderRegex_group:
  "matchAt placeholderRegex s = Some (n, cs) \<Longrightarrow>
   group cs 1 = takeWhile (\<lambda>x. x \<noteq> 95) (drop 20 s)"
  by (auto simp: matchAt_def rmatch_placeholderRegex Let_def group_def split: if_splits)

lemma takeWhile_run: "c \<notin> set a \<Longrightarrow> takeWhile (\<lambda>x. x \<noteq> c) (a @ c # b) = a"
  by (induction a) auto

lemma dropWhile_run: "c \<notin> set a \<Longrightarrow> dropWhile (\<lambda>x. x \<noteq> c) (a @ c # b) = c # b"
  by (induction a) auto

lemma placeholder_decoded:
  assumes "p \<noteq> []" and "w \<noteq> []" and "95 \<notin> set p" and "95 \<notin> set w"
  shows "restoreUrls (placeholder p w) = js ''url(\"'' @ p @ js ''\")''"
proof -
  let ?t = "placeholder p w"
  have l: "length (js ''__WEBP_PLACEHOLDER__'') = 20" by (simp add: js_def)
  have u: "js ''__'' = [95, 95]" by (simp add: js_def)
  have t20: "take 20 ?t = js ''__WEBP_PLACEHOLDER__''" "drop 20 ?t = p @ [95, 95] @ w @ [95, 95]"
    by (simp_all add: placeholder_def l u)
  have a: "takeWhile (\<lambda>x. x \<noteq> 95) (p @ [95, 95] @ w @ [95, 95]) = p"
    "dropWhile (\<lambda>x. x \<noteq> 95) (p @ [95, 95] @ w @ [95, 95]) = [95, 95] @ w @ [95, 95]"
    using assms(3) by (simp_all add: takeWhile_run dropWhile_run)
  have a2: "takeWhile (\<lambda>x. x \<noteq> 95) (w @ [95, 95]) = w"
    "dropWhile (\<lambda>x. x \<noteq> 95) (w @ [95, 95]) = [95, 95]"
    using assms(4) by (simp_all add: takeWhile_run dropWhile_run)
  have r: "rmatch placeholderRegex ?t [] = [([], [(2, w), (1, p)])]"
    unfolding rmatch_placeholderRegex t20 using assms(1,2) a a2 by (simp add: Let_def)
  have ne: "?t \<noteq> []" by (simp add: placeholder_def js_def)
  have m: "matchAt placeholderRegex ?t = Some (length ?t, [(2, w), (1, p)])"
    using r by (simp add: matchAt_def)
  have e: "matchAt placeholderRegex [] = None"
    by (simp add: matchAt_def rmatch_placeholderRegex js_def)
  show ?thesis
    unfolding restoreUrls_def
    using m e ne
    by (simp add: replaceFn.simps [of placeholderRegex _ 0 ?t]
        replaceFn.simps [of placeholderRegex _ "length ?t" "[]"] group_def)
qed

lemma placeholder_not_decoded:
  assumes "95 \<in> set p"
  shows "restoreUrls (placeholder p w) \<noteq> js ''url(\"'' @ p @ js ''\")''"
proof
  let ?t = "placeholder p w"
  let ?f = "\<lambda>(m::jsstring) cs (i::nat). js ''url(\"'' @ group cs 1 @ js ''\")''"
  assume eq: "restoreUrls ?t = js ''url(\"'' @ p @ js ''\")''"
  obtain t' where t: "?t = 95 # t'" by (simp add: placeholder_def js_def)
  have l: "length (js ''__WEBP_PLACEHOLDER__'') = 20" by (simp add: js_def)
  have d20: "drop 20 ?t = p @ js ''__'' @ w @ js ''__''" by (simp add: placeholder_def l)
  let ?a = "takeWhile (\<lambda>x. x \<noteq> 95) p"
  have tw: "takeWhile (\<lambda>x. x \<noteq> 95) (drop 20 ?t) = ?a"
    unfolding d20 using assms by (simp add: takeWhile_append1)
  obtain p' where p: "p = ?a @ 95 # p'"
  proof -
    have "dropWhile (\<lambda>x. x \<noteq> 95) p \<noteq> []" using assms by (simp add: dropWhile_eq_Nil_conv)
    then obtain h q where hq: "dropWhile (\<lambda>x. x \<noteq> 95) p = h # q" by (cases "dropWhile (\<lambda>x. x \<noteq> 95) p") auto
    then have "h = 95" using hd_dropWhile [of "\<lambda>x. x \<noteq> 95" p] by force
    then have "p = ?a @ 95 # q" using hq takeWhile_dropWhile_id [of "\<lambda>x. x \<noteq> 95" p] by simp
    then show ?thesis using that by blast
  qed
  show False
  proof (cases "matchAt placeholderRegex ?t")
    case None
    then have "restoreUrls ?t = 95 # replaceFn placeholderRegex ?f (Suc 0) t'"
      unfolding restoreUrls_def using t
      by (simp add: replaceFn.simps [of placeholderRegex _ 0 "95 # t'"])
    then show False using eq by (simp add: js_def)
  next
    case (Some nc)
    obtain n cs where nc: "nc = (n, cs)" by (cases nc)
    have g: "group cs 1 = ?a" using matchAt_placeholderRegex_group Some nc tw by simp
    have "\<exists>X. restoreUrls ?t = js ''url(\"'' @ ?a @ js ''\")'' @ X"
      unfolding restoreUrls_def using Some nc g t
      by (simp add: replaceFn.simps [of placeholderRegex _ 0 "95 # t'"])
    then obtain X where "js ''url(\"'' @ ?a @ js ''\")'' @ X = js ''url(\"'' @ (?a @ 95 # p') @ js ''\")''"
      using eq p by metis
    then have "js ''\")'' @ X = 95 # p' @ js ''\")''" by simp
    then show False by (simp add: js_def)
  qed
qed

lemma cssWebpPath_underscore: "95 \<notin> set p \<Longrightarrow> 95 \<notin> set (cssWebpPath p)"
proof -
  assume a: "95 \<notin> set p"
  have "95 \<notin> set (take k p)" for k using a in_set_takeD by fastforce
  then show ?thesis using a by (auto simp: cssWebpPath_def js_def)
qed

lemma cssWebpPath_nonempty: "p \<noteq> [] \<Longrightarrow> cssWebpPath p \<noteq> []"
  by (auto simp: cssWebpPath_def js_def)

text \<open>A text in which the decoding regular expression matches nowhere is left as it is.\<close>

lemma replaceFn_without_match:
  "(\<And>k. matchAt r (drop k s) = None) \<Longrightarrow> replaceFn r f i s = s"
proof (induction s arbitrary: i)
  case Nil
  from Nil [of 0] show ?case by (simp add: replaceFn.simps [of r f i "[]"])
next
  case (Cons c t)
  have m: "matchAt r (c # t) = None" using Cons.prems [of 0] by simp
  have "\<And>k. matchAt r (drop k t) = None" using Cons.prems [of "Suc k" for k] by simp
  then have "replaceFn r f (Suc i) t = t" by (rule Cons.IH)
  then show ?case using m by (simp add: replaceFn.simps [of r f i "c # t"])
qed

lemma restore_without_match:
  "(\<And>k. matchAt placeholderRegex (drop k s) = None) \<Longrightarrow> restoreUrls s = s"
  unfolding restoreUrls_def by (rule replaceFn_without_match)

lemma underscoreSheet_written:
  "processCssFile underscoreSheet =
     Some (js ''.a{background:url(\"a.png\")}.b{background:__WEBP_PLACEHOLDER__b_c.png__b_c.webp__}'' @
           attrComment @ attrBlock (js ''.a'') (js ''a.png'') (js ''a.webp''))"
  unfolding underscoreSheet_def processCssFile_def by (simp del: rmatch.simps add: css_eval)

lemma doubleUnderscoreSheet_written:
  "processCssFile doubleUnderscoreSheet =
     Some (js ''.a{background:url(\"a.png\")}.b{background:url(\"b\")b__c.webp__}'' @
           attrComment @ attrBlock (js ''.a'') (js ''a.png'') (js ''a.webp''))"
  unfolding doubleUnderscoreSheet_def processCssFile_def by (simp del: rmatch.simps add: css_eval)

lemma doubleUnderscoreSheet_supports:
  "processCssFile_supports doubleUnderscoreSheet =
     Some (js ''.a{background:url(\"a.png\")}.b{background:url(\"b\")b__c.webp__}'' @
           supportsComment @ supportsOpen @ supportsRule (js ''.a'') (js ''a.png'') (js ''a.webp'') @
           js ''}'' @ [10])"
  unfolding doubleUnderscoreSheet_def processCssFile_supports_def
  by (simp del: rmatch.simps add: css_eval)

text \<open>
  Decoding the placeholder of a non-empty image path gives back the reference
  \<^verbatim>\<open>url("path")\<close> if and only if neither the path nor its compact path contains an
  underscore.  In the stylesheet with the references \<^verbatim>\<open>a.png\<close> and \<^verbatim>\<open>b_c.png\<close> the
  decoding regular expression matches nowhere in the second placeholder, and the text written
  holds that placeholder as it is.
\<close>

lemma placeholder_round_trip:
  "(p \<noteq> [] \<longrightarrow>
      (restoreUrls (placeholder p (cssWebpPath p)) = js ''url(\"'' @ p @ js ''\")'')
        = (95 \<notin> set p \<and> 95 \<notin> set (cssWebpPath p)))
   \<and> processCssFile underscoreSheet =
     Some (js ''.a{background:url(\"a.png\")}.b{background:'' @
           placeholder (js ''b_c.png'') (js ''b_c.webp'') @ js ''}'' @
           attrComment @ attrBlock (js ''.a'') (js ''a.png'') (js ''a.webp''))"
proof -
  have "(restoreUrls (placeholder p (cssWebpPath p)) = js ''url(\"'' @ p @ js ''\")'')
        = (95 \<notin> set p \<and> 95 \<notin> set (cssWebpPath p))" if "p \<noteq> []"
  proof (cases "95 \<in> set p")
    case True
    then show ?thesis using placeholder_not_decoded by simp
  next
    case False
    then show ?thesis
      using that placeholder_decoded [of p "cssWebpPath p"] cssWebpPath_underscore
        cssWebpPath_nonempty by simp
  qed
  moreover have "js ''.a{background:url(\"a.png\")}.b{background:'' @
      placeholder (js ''b_c.png'') (js ''b_c.webp'') @ js ''}'' =
      js ''.a{background:url(\"a.png\")}.b{background:__WEBP_PLACEHOLDER__b_c.png__b_c.webp__}''"
    by (simp add: placeholder_def js_def)
  ultimately show ?thesis using underscoreSheet_written by simp
qed

lemma placeholder_round_trip_examples:
  "restoreUrls (placeholder (js ''a.png'') (js ''a.webp'')) = js ''url(\"a.png\")'' \<and>
   restoreUrls (placeholder (js ''b_c.png'') (js ''b_c.webp'')) \<noteq> js ''url(\"b_c.png\")''"
proof -
  have a: "cssWebpPath (js ''a.png'') = js ''a.webp''"
    by (simp add: cssWebpPath_def endsWithCI_def endsWith_def canonicalize_def js_def)
  have b: "cssWebpPath (js ''b_c.png'') = js ''b_c.webp''"
    by (simp add: cssWebpPath_def endsWithCI_def endsWith_def canonicalize_def js_def)
  have na: "js ''a.png'' \<noteq> [] \<and> 95 \<notin> set (js ''a.png'') \<and> 95 \<notin> set (js ''a.webp'')"
    by (simp add: js_def)
  have nb: "js ''b_c.png'' \<noteq> [] \<and> 95 \<in> set (js ''b_c.png'')"
    by (simp add: js_def)
  have ja: "js ''url(\"'' @ js ''a.png'' @ js ''\")'' = js ''url(\"a.png\")''" by (simp add: js_def)
  have jb: "js ''url(\"'' @ js ''b_c.png'' @ js ''\")'' = js ''url(\"b_c.png\")''" by (simp add: js_def)
  show ?thesis
    using placeholder_round_trip [of "js ''a.png''"] placeholder_round_trip [of "js ''b_c.png''"]
      a b na nb ja jb by simp
qed

text \<open>
  C10.  The path \<^verbatim>\<open>b__c.png\<close> contains an underscore, and the text written does not
  hold its placeholder: the decoding regular expression matches the start of the placeholder,
  with \<^verbatim>\<open>b\<close> and \<^verbatim>\<open>c.png\<close> as its groups, and puts a reference to \<^verbatim>\<open>b\<close> in
  its place; the rest of the placeholder follows it.  Both variants of the rewriter write
  this text.
\<close>

theorem double_underscore_placeholder_mangled:
  "95 \<in> set (js ''b__c.png'') \<and>
   processCssFile doubleUnderscoreSheet =
     Some (js ''.a{background:url(\"a.png\")}.b{background:url(\"b\")b__c.webp__}'' @
           attrComment @ attrBlock (js ''.a'') (js ''a.png'') (js ''a.webp'')) \<and>
   processCssFile_supports doubleUnderscoreSheet =
     Some (js ''.a{background:url(\"a.png\")}.b{background:url(\"b\")b__c.webp__}'' @
           supportsComment @ supportsOpen @ supportsRule (js ''.a'') (js ''a.png'') (js ''a.webp'') @
           js ''}'' @ [10])"
  using doubleUnderscoreSheet_written doubleUnderscoreSheet_supports by (simp add: js_def)

section \<open>Rules with several backgrounds are left as they are\<close>































text \<open>What a variant writes starts with the marked text, its placeholders decoded.\<close>

lemma written_text:
  "processCssFile c = Some w \<Longrightarrow> \<exists>appended. w = restoreUrls (markUrls True c) @ appended"
  "processCssFile_supports c = Some w \<Longrightarrow> \<exists>appended. w = restoreUrls (markUrls False c) @ appended"
  by (auto simp: processCssFile_def processCssFile_supports_def Let_def split: if_splits)












text \<open>
  A rule with several backgrounds beside a rule that is rewritten: its text is written as it
  was read, and the fallback block appended is that of the other rule.
\<close>

lemma mixedSheet_attr:
  "processCssFile mixedSheet =
     Some (js ''.a{background:url(a.png),url(b.gif)}.b{background:url(\"c.png\")}'' @ attrComment @
           attrBlock (js ''.b'') (js ''c.png'') (js ''c.webp''))"
  unfolding mixedSheet_def processCssFile_def by (simp del: rmatch.simps add: css_eval)

lemma mixedSheet_supports:
  "processCssFile_supports mixedSheet =
     Some (js ''.a{background:url(a.png),url(b.gif)}.b{background:url(\"c.png\")}'' @
           supportsComment @ supportsOpen @
           supportsRule (js ''.b'') (js ''c.png'') (js ''c.webp'') @ js ''}'' @ [10])"
  unfolding mixedSheet_def processCssFile_supports_def by (simp del: rmatch.simps add: css_eval)

text \<open>
  The rules that get a fallback block are looked up in the text that was read, by the path
  of a rewritten reference alone.  A rule with several backgrounds that uses such a path is
  found too: its references are written as they were read, and a fallback block for its
  selector is appended.
\<close>

lemma shared_path_attr:
  "processCssFile sharedPathSheet =
     Some (js ''.a{background:url(a.png),url(b.gif)}.b{background:url(\"a.png\")}'' @ attrComment @
           attrBlock (js ''.a'') (js ''a.png'') (js ''a.webp'') @
           attrBlock (js ''.b'') (js ''a.png'') (js ''a.webp''))"
  unfolding sharedPathSheet_def processCssFile_def by (simp del: rmatch.simps add: css_eval)

lemma shared_path_supports:
  "processCssFile_supports sharedPathSheet =
     Some (js ''.a{background:url(a.png),url(b.gif)}.b{background:url(\"a.png\")}'' @
           supportsComment @ supportsOpen @
           supportsRule (js ''.a'') (js ''a.png'') (js ''a.webp'') @
           supportsRule (js ''.b'') (js ''a.png'') (js ''a.webp'') @ js ''}'' @ [10])"
  unfolding sharedPathSheet_def processCssFile_supports_def by (simp del: rmatch.simps add: css_eval)

section \<open>A second full pass\<close>














end
